theory Spec2Isabelle
  imports Complex_Main
begin

section \<open>JavaScript numbers\<close>

text \<open>
  The module computes with JavaScript numbers. They are modelled as the real numbers
  extended by the three special values of IEEE arithmetic, so that a division by zero
  is a value (an infinity or NaN) and not an error, as in the source. The arithmetic on
  finite values is exact: rounding and overflow are left out, and so is the sign of zero
  (the one zero behaves as \<open>+0\<close>).
\<close>

datatype number = Fin real | PInf | NInf | NaN

instantiation number :: "{uminus, plus, minus, times, inverse}"
begin

fun uminus_number :: "number \<Rightarrow> number" where
  "uminus_number (Fin a) = Fin (- a)"
| "uminus_number PInf = NInf"
| "uminus_number NInf = PInf"
| "uminus_number NaN = NaN"

fun plus_number :: "number \<Rightarrow> number \<Rightarrow> number" where
  "plus_number (Fin a) (Fin b) = Fin (a + b)"
| "plus_number (Fin a) PInf = PInf"
| "plus_number (Fin a) NInf = NInf"
| "plus_number PInf (Fin b) = PInf"
| "plus_number PInf PInf = PInf"
| "plus_number PInf NInf = NaN"
| "plus_number NInf (Fin b) = NInf"
| "plus_number NInf PInf = NaN"
| "plus_number NInf NInf = NInf"
| "plus_number NaN y = NaN"
| "plus_number x NaN = NaN"

definition minus_number :: "number \<Rightarrow> number \<Rightarrow> number" where
  "minus_number x y = x + (- y)"

fun times_number :: "number \<Rightarrow> number \<Rightarrow> number" where
  "times_number (Fin a) (Fin b) = Fin (a * b)"
| "times_number (Fin a) PInf = (if 0 < a then PInf else if a < 0 then NInf else NaN)"
| "times_number (Fin a) NInf = (if 0 < a then NInf else if a < 0 then PInf else NaN)"
| "times_number PInf (Fin b) = (if 0 < b then PInf else if b < 0 then NInf else NaN)"
| "times_number PInf PInf = PInf"
| "times_number PInf NInf = NInf"
| "times_number NInf (Fin b) = (if 0 < b then NInf else if b < 0 then PInf else NaN)"
| "times_number NInf PInf = NInf"
| "times_number NInf NInf = PInf"
| "times_number NaN y = NaN"
| "times_number x NaN = NaN"

fun divide_number :: "number \<Rightarrow> number \<Rightarrow> number" where
  "divide_number (Fin a) (Fin b) =
     (if b \<noteq> 0 then Fin (a / b)
      else if 0 < a then PInf else if a < 0 then NInf else NaN)"
| "divide_number (Fin a) PInf = Fin 0"
| "divide_number (Fin a) NInf = Fin 0"
| "divide_number PInf (Fin b) = (if 0 \<le> b then PInf else NInf)"
| "divide_number NInf (Fin b) = (if 0 \<le> b then NInf else PInf)"
| "divide_number PInf PInf = NaN"
| "divide_number PInf NInf = NaN"
| "divide_number NInf PInf = NaN"
| "divide_number NInf NInf = NaN"
| "divide_number NaN y = NaN"
| "divide_number x NaN = NaN"

definition inverse_number :: "number \<Rightarrow> number" where
  "inverse_number x = divide (Fin 1) x"

instance ..

end

text \<open>
  The functions of \<open>Math\<close> that the module calls, with their exact values on finite
  arguments. The exact cosine is zero at the odd multiples of \<open>\<pi>/2\<close>, and the exact
  arc tangent of an infinity is \<open>\<plusminus>\<pi>/2\<close>; a floating-point number is never an odd
  multiple of \<open>\<pi>/2\<close>, so in floating point \<open>Math.cos\<close> does not return zero.
\<close>

fun Math_sqrt :: "number \<Rightarrow> number" where
  "Math_sqrt (Fin a) = (if 0 \<le> a then Fin (sqrt a) else NaN)"
| "Math_sqrt PInf = PInf"
| "Math_sqrt NInf = NaN"
| "Math_sqrt NaN = NaN"

fun Math_sin :: "number \<Rightarrow> number" where
  "Math_sin (Fin a) = Fin (sin a)"
| "Math_sin x = NaN"

fun Math_cos :: "number \<Rightarrow> number" where
  "Math_cos (Fin a) = Fin (cos a)"
| "Math_cos x = NaN"

fun Math_atan :: "number \<Rightarrow> number" where
  "Math_atan (Fin a) = Fin (arctan a)"
| "Math_atan PInf = Fin (pi / 2)"
| "Math_atan NInf = Fin (- (pi / 2))"
| "Math_atan NaN = NaN"

text \<open>
  The angle of the point \<open>(x, y)\<close> in \<open>(-\<pi>, \<pi>]\<close>, on finite arguments; the values at
  the infinities are those of the language standard.
\<close>

definition atan2r :: "real \<Rightarrow> real \<Rightarrow> real" where
  "atan2r y x =
     (if 0 < x then arctan (y / x)
      else if x < 0 then (if 0 \<le> y then arctan (y / x) + pi else arctan (y / x) - pi)
      else if 0 < y then pi / 2
      else if y < 0 then - (pi / 2)
      else 0)"

fun Math_atan2 :: "number \<Rightarrow> number \<Rightarrow> number" where
  "Math_atan2 (Fin y) (Fin x) = Fin (atan2r y x)"
| "Math_atan2 (Fin y) PInf = Fin 0"
| "Math_atan2 (Fin y) NInf = (if 0 \<le> y then Fin pi else Fin (- pi))"
| "Math_atan2 PInf (Fin x) = Fin (pi / 2)"
| "Math_atan2 NInf (Fin x) = Fin (- (pi / 2))"
| "Math_atan2 PInf PInf = Fin (pi / 4)"
| "Math_atan2 PInf NInf = Fin (3 * pi / 4)"
| "Math_atan2 NInf PInf = Fin (- (pi / 4))"
| "Math_atan2 NInf NInf = Fin (- (3 * pi / 4))"
| "Math_atan2 NaN x = NaN"
| "Math_atan2 y NaN = NaN"

text \<open>Strict equality \<open>===\<close> on numbers: NaN is equal to nothing, itself included.\<close>

definition strict_eq :: "number \<Rightarrow> number \<Rightarrow> bool" where
  "strict_eq x y = (x \<noteq> NaN \<and> y \<noteq> NaN \<and> x = y)"

definition finite_number :: "number \<Rightarrow> bool" where
  "finite_number x = (case x of Fin a \<Rightarrow> True | _ \<Rightarrow> False)"


section \<open>The ellipsoid model\<close>

text \<open>The fields of an \<open>EllipsoidModel\<close> object.\<close>

record EllipsoidModel =
  radiusEquator :: number
  radiusPolar :: number
  eccentricitySquared :: number

definition WGS_84_RADIUS_EQUATOR :: number where
  "WGS_84_RADIUS_EQUATOR = Fin 6378137"

definition WGS_84_RADIUS_POLAR :: number where
  "WGS_84_RADIUS_POLAR = Fin 6356752.3142"

definition computeCoefficients :: "EllipsoidModel \<Rightarrow> EllipsoidModel" where
  "computeCoefficients m =
     (let flattening = (radiusEquator m - radiusPolar m) / radiusEquator m
      in m\<lparr>eccentricitySquared := Fin 2 * flattening - flattening * flattening\<rparr>)"

text \<open>
  The constructor. The field \<open>_eccentricitySquared\<close> does not exist before
  \<open>computeCoefficients\<close> assigns it; the record holds NaN there until then.
\<close>

definition new_EllipsoidModel :: EllipsoidModel where
  "new_EllipsoidModel =
     computeCoefficients
       \<lparr>radiusEquator = WGS_84_RADIUS_EQUATOR,
        radiusPolar = WGS_84_RADIUS_POLAR,
        eccentricitySquared = NaN\<rparr>"


definition getRadiusEquator :: "EllipsoidModel \<Rightarrow> number" where
  "getRadiusEquator m = radiusEquator m"


definition getRadiusPolar :: "EllipsoidModel \<Rightarrow> number" where
  "getRadiusPolar m = radiusPolar m"

definition isWGS84 :: "EllipsoidModel \<Rightarrow> bool" where
  "isWGS84 m =
     (strict_eq (radiusEquator m) WGS_84_RADIUS_EQUATOR
      \<and> strict_eq (radiusPolar m) WGS_84_RADIUS_POLAR)"


section \<open>Arrays, the store and the library the module calls\<close>

text \<open>
  A vector or a matrix is a JavaScript array of numbers. Reading past the end gives
  \<open>undefined\<close>, which is NaN wherever the module uses it as a number; writing past
  the end extends the array, and the holes left behind are held as NaN too.
\<close>

definition load :: "number list \<Rightarrow> nat \<Rightarrow> number" where
  "load xs i = (if i < length xs then xs ! i else NaN)"

definition store :: "number list \<Rightarrow> nat \<Rightarrow> number \<Rightarrow> number list" where
  "store xs i v =
     (if i < length xs then xs[i := v]
      else xs @ replicate (i - length xs) NaN @ [v])"

text \<open>
  The world of a call: the model object \<open>this\<close>, the arrays that the caller and the
  module share (a store from references to arrays, with the next free reference), the
  three scratch vectors private to \<open>computeCoordinateFrame\<close>, and the warnings that
  were logged. A \<open>result\<close> argument is \<open>None\<close> for \<open>undefined\<close> and a reference to an
  array otherwise.
\<close>

record world =
  this :: EllipsoidModel
  heap :: "nat \<Rightarrow> number list"
  nextAddr :: nat
  up :: "number list"
  east :: "number list"
  north :: "number list"
  warnings :: "string list"

definition alloc :: "number list \<Rightarrow> world \<Rightarrow> nat \<times> world" where
  "alloc xs w =
     (nextAddr w, w\<lparr>heap := (heap w)(nextAddr w := xs), nextAddr := Suc (nextAddr w)\<rparr>)"

definition array_set :: "nat \<Rightarrow> nat \<Rightarrow> number \<Rightarrow> world \<Rightarrow> world" where
  "array_set a i v w = w\<lparr>heap := (heap w)(a := store (heap w a) i v)\<rparr>"

definition array_get :: "nat \<Rightarrow> nat \<Rightarrow> world \<Rightarrow> number" where
  "array_get a i w = load (heap w a) i"

text \<open>
  Modelled from the spec: \<open>Notify.warn\<close> of \<open>osg/Notify\<close>, which is not part of the
  sources at hand. The spec calls it a warning-level diagnostic; the model appends the
  message to the log.
\<close>

definition Notify_warn :: "string \<Rightarrow> world \<Rightarrow> world" where
  "Notify_warn msg w = w\<lparr>warnings := warnings w @ [msg]\<rparr>"

text \<open>
  Modelled from the spec: \<open>Vec3.create\<close> and \<open>Vec3.cross\<close> of \<open>osg/Vec3\<close>, which is
  not part of the sources at hand. A new vector is a fresh array of three zeros, and
  \<open>Vec3.cross(a, b, r)\<close> writes the right-handed cross product \<open>a \<times> b\<close> into \<open>r\<close>.
\<close>

definition Vec3_create :: "world \<Rightarrow> nat \<times> world" where
  "Vec3_create w = alloc [Fin 0, Fin 0, Fin 0] w"

definition Vec3_cross :: "number list \<Rightarrow> number list \<Rightarrow> number list \<Rightarrow> number list" where
  "Vec3_cross a b r =
     (let x = load a 1 * load b 2 - load a 2 * load b 1;
          y = load a 2 * load b 0 - load a 0 * load b 2;
          z = load a 0 * load b 1 - load a 1 * load b 0
      in store (store (store r 0 x) 1 y) 2 z)"

text \<open>
  Modelled from the spec: \<open>Matrix.create\<close>, \<open>Matrix.set\<close> and \<open>Matrix.makeTranslate\<close>
  of \<open>osg/Matrix\<close>, which is not part of the sources at hand. A 4\<times>4 transform is an
  array of sixteen numbers, row after row, whose fourth row (entries 12 to 14) is the
  translation. A new matrix is the identity, \<open>Matrix.set(m, row, col, v)\<close> writes the one
  entry at \<open>row\<close> and \<open>col\<close>, and \<open>Matrix.makeTranslate(x, y, z, m)\<close> makes \<open>m\<close> the
  translation by \<open>(x, y, z)\<close> and returns it.
\<close>

definition Matrix_identity :: "number list" where
  "Matrix_identity =
     [Fin 1, Fin 0, Fin 0, Fin 0,
      Fin 0, Fin 1, Fin 0, Fin 0,
      Fin 0, Fin 0, Fin 1, Fin 0,
      Fin 0, Fin 0, Fin 0, Fin 1]"

definition Matrix_create :: "world \<Rightarrow> nat \<times> world" where
  "Matrix_create w = alloc Matrix_identity w"

definition Matrix_set :: "nat \<Rightarrow> nat \<Rightarrow> nat \<Rightarrow> number \<Rightarrow> world \<Rightarrow> world" where
  "Matrix_set matrix row col v w = array_set matrix (row * 4 + col) v w"

definition Matrix_setRow ::
  "nat \<Rightarrow> nat \<Rightarrow> number \<Rightarrow> number \<Rightarrow> number \<Rightarrow> number \<Rightarrow> world \<Rightarrow> world" where
  "Matrix_setRow matrix row v0 v1 v2 v3 w =
     Matrix_set matrix row 3 v3
       (Matrix_set matrix row 2 v2
         (Matrix_set matrix row 1 v1
           (Matrix_set matrix row 0 v0 w)))"

definition Matrix_makeTranslate ::
  "number \<Rightarrow> number \<Rightarrow> number \<Rightarrow> nat \<Rightarrow> world \<Rightarrow> nat \<times> world" where
  "Matrix_makeTranslate x y z matrix w =
     (matrix,
      Matrix_setRow matrix 3 x y z (Fin 1)
        (Matrix_setRow matrix 2 (Fin 0) (Fin 0) (Fin 1) (Fin 0)
          (Matrix_setRow matrix 1 (Fin 0) (Fin 1) (Fin 0) (Fin 0)
            (Matrix_setRow matrix 0 (Fin 1) (Fin 0) (Fin 0) (Fin 0) w))))"


section \<open>Conversions and frames\<close>

definition convertLatLongHeightToXYZ ::
  "number \<Rightarrow> number \<Rightarrow> number \<Rightarrow> nat option \<Rightarrow> world \<Rightarrow> nat \<times> world" where
  "convertLatLongHeightToXYZ latitude longitude height result w =
     (let (result, w) =
            (case result of
               None \<Rightarrow>
                 Vec3_create
                   (Notify_warn
                      ''deprecated, use this signature convertLatLongHeightToXYZ( latitude, longitude, height, result )''
                      w)
             | Some r \<Rightarrow> (r, w));
          sinLatitude = Math_sin latitude;
          cosLatitude = Math_cos latitude;
          N = radiusEquator (this w)
                / Math_sqrt (Fin 1 - eccentricitySquared (this w) * sinLatitude * sinLatitude);
          X = (N + height) * cosLatitude * Math_cos longitude;
          Y = (N + height) * cosLatitude * Math_sin longitude;
          Z = (N * (Fin 1 - eccentricitySquared (this w)) + height) * sinLatitude;
          w = array_set result 0 X w;
          w = array_set result 1 Y w;
          w = array_set result 2 Z w
      in (result, w))"

definition convertXYZToLatLongHeight ::
  "number \<Rightarrow> number \<Rightarrow> number \<Rightarrow> nat option \<Rightarrow> world \<Rightarrow> nat \<times> world" where
  "convertXYZToLatLongHeight X Y Z result w =
     (let (result, w) =
            (case result of
               None \<Rightarrow>
                 Vec3_create
                   (Notify_warn
                      ''deprecated, use this signature convertXYZToLatLongHeight( X,  Y,  Z , result)''
                      w)
             | Some r \<Rightarrow> (r, w));
          p = Math_sqrt (X * X + Y * Y);
          theta = Math_atan2 (Z * radiusEquator (this w)) (p * radiusPolar (this w));
          eDashSquared =
            (radiusEquator (this w) * radiusEquator (this w)
               - radiusPolar (this w) * radiusPolar (this w))
              / (radiusPolar (this w) * radiusPolar (this w));
          sinTheta = Math_sin theta;
          cosTheta = Math_cos theta;
          latitude =
            Math_atan
              ((Z + eDashSquared * radiusPolar (this w) * sinTheta * sinTheta * sinTheta)
                 / (p - eccentricitySquared (this w) * radiusEquator (this w)
                          * cosTheta * cosTheta * cosTheta));
          longitude = Math_atan2 Y X;
          sinLatitude = Math_sin latitude;
          N = radiusEquator (this w)
                / Math_sqrt (Fin 1 - eccentricitySquared (this w) * sinLatitude * sinLatitude);
          cosLat = Math_cos latitude;
          cosLat = (if strict_eq cosLat (Fin 0) then Fin 1 else cosLat);
          height = p / cosLat - N;
          w = array_set result 0 latitude w;
          w = array_set result 1 longitude w;
          w = array_set result 2 height w
      in (result, w))"

text \<open>
  \<open>computeLocalUpVector\<close> passes its own, still undefined, variable \<open>latitude\<close> as the
  result argument of the conversion; the array literal it returns is a new array.
\<close>

definition computeLocalUpVector ::
  "number \<Rightarrow> number \<Rightarrow> number \<Rightarrow> world \<Rightarrow> nat \<times> world" where
  "computeLocalUpVector X Y Z w =
     (let (coord, w) = convertXYZToLatLongHeight X Y Z None w;
          latitude = array_get coord 0 w;
          longitude = array_get coord 1 w;
          altitude = array_get coord 2 w
      in alloc [Math_cos longitude * Math_cos latitude,
                Math_sin longitude * Math_cos latitude,
                Math_sin latitude] w)"

definition computeCoordinateFrame :: "number \<Rightarrow> number \<Rightarrow> nat \<Rightarrow> world \<Rightarrow> world" where
  "computeCoordinateFrame latitude longitude localToWorld w =
     (let w = w\<lparr>up := store (up w) 0 (Math_cos longitude * Math_cos latitude)\<rparr>;
          w = w\<lparr>up := store (up w) 1 (Math_sin longitude * Math_cos latitude)\<rparr>;
          w = w\<lparr>up := store (up w) 2 (Math_sin latitude)\<rparr>;
          w = w\<lparr>east := store (east w) 0 (- Math_sin longitude)\<rparr>;
          w = w\<lparr>east := store (east w) 1 (- Math_cos longitude)\<rparr>;
          w = w\<lparr>north := Vec3_cross (up w) (east w) (north w)\<rparr>;
          w = Matrix_set localToWorld 0 0 (load (east w) 0) w;
          w = Matrix_set localToWorld 0 1 (load (east w) 1) w;
          w = Matrix_set localToWorld 0 2 (load (east w) 2) w;
          w = Matrix_set localToWorld 1 0 (load (north w) 0) w;
          w = Matrix_set localToWorld 1 1 (load (north w) 1) w;
          w = Matrix_set localToWorld 1 2 (load (north w) 2) w;
          w = Matrix_set localToWorld 2 0 (load (up w) 0) w;
          w = Matrix_set localToWorld 2 1 (load (up w) 1) w;
          w = Matrix_set localToWorld 2 2 (load (up w) 2) w
      in w)"

definition computeLocalToWorldTransformFromLatLongHeight ::
  "number \<Rightarrow> number \<Rightarrow> number \<Rightarrow> nat option \<Rightarrow> world \<Rightarrow> nat \<times> world" where
  "computeLocalToWorldTransformFromLatLongHeight latitude longitude height result w =
     (let (result, w) =
            (case result of
               None \<Rightarrow>
                 Matrix_create
                   (Notify_warn
                      ''deprecated, use this signature computeLocalToWorldTransformFromLatLongHeight(latitude, longitude, height, result)''
                      w)
             | Some r \<Rightarrow> (r, w));
          (pos, w) = convertLatLongHeightToXYZ latitude longitude height (Some result) w;
          (t, w) =
            Matrix_makeTranslate (array_get pos 0 w) (array_get pos 1 w) (array_get pos 2 w)
              result w;
          w = computeCoordinateFrame latitude longitude result w
      in (result, w))"

definition computeLocalToWorldTransformFromXYZ ::
  "number \<Rightarrow> number \<Rightarrow> number \<Rightarrow> world \<Rightarrow> nat \<times> world" where
  "computeLocalToWorldTransformFromXYZ X Y Z w =
     (let (lla, w) = convertXYZToLatLongHeight X Y Z None w;
          (c, w) = Matrix_create w;
          (m, w) = Matrix_makeTranslate X Y Z c w;
          w = computeCoordinateFrame (array_get lla 0 w) (array_get lla 1 w) m w
      in (m, w))"

text \<open>
  The world in which the module has been loaded and one model constructed: the scratch
  vectors are the three vectors that \<open>Vec3.create\<close> made when the module was loaded,
  no array is shared yet and nothing has been logged.
\<close>

definition initial_world :: world where
  "initial_world =
     \<lparr>this = new_EllipsoidModel,
      heap = (\<lambda>a. []),
      nextAddr = 0,
      up = [Fin 0, Fin 0, Fin 0],
      east = [Fin 0, Fin 0, Fin 0],
      north = [Fin 0, Fin 0, Fin 0],
      warnings = []\<rparr>"


section \<open>The documented formulas\<close>

text \<open>
  The definitions of this section follow the words of the specification, not the
  source; the theorems below compare the two.
\<close>


text \<open>The documented geodetic to Cartesian formula.\<close>

definition primeVerticalRadius :: "EllipsoidModel \<Rightarrow> number \<Rightarrow> number" where
  "primeVerticalRadius m lat =
     radiusEquator m
       / Math_sqrt (Fin 1 - eccentricitySquared m * (Math_sin lat * Math_sin lat))"

definition geodeticToCartesian ::
  "EllipsoidModel \<Rightarrow> number \<Rightarrow> number \<Rightarrow> number \<Rightarrow> number \<times> number \<times> number" where
  "geodeticToCartesian m lat lon height =
     (let N = primeVerticalRadius m lat
      in ((N + height) * Math_cos lat * Math_cos lon,
          (N + height) * Math_cos lat * Math_sin lon,
          (N * (Fin 1 - eccentricitySquared m) + height) * Math_sin lat))"

text \<open>
  The documented Cartesian to geodetic formula: one pass of Bowring's method, and a
  divisor of one in place of a cosine that is exactly zero.
\<close>

definition bowringLatitude :: "EllipsoidModel \<Rightarrow> number \<Rightarrow> number \<Rightarrow> number \<Rightarrow> number" where
  "bowringLatitude m X Y Z =
     (let p = Math_sqrt (X * X + Y * Y);
          theta = Math_atan2 (Z * radiusEquator m) (p * radiusPolar m);
          eDashSquared =
            (radiusEquator m * radiusEquator m - radiusPolar m * radiusPolar m)
              / (radiusPolar m * radiusPolar m)
      in Math_atan
           ((Z + eDashSquared * radiusPolar m
                   * (Math_sin theta * Math_sin theta * Math_sin theta))
              / (p - eccentricitySquared m * radiusEquator m
                       * (Math_cos theta * Math_cos theta * Math_cos theta))))"

definition heightDivisor :: "number \<Rightarrow> number" where
  "heightDivisor lat = (if Math_cos lat = Fin 0 then Fin 1 else Math_cos lat)"

definition cartesianToGeodetic ::
  "EllipsoidModel \<Rightarrow> number \<Rightarrow> number \<Rightarrow> number \<Rightarrow> number \<times> number \<times> number" where
  "cartesianToGeodetic m X Y Z =
     (let latitude = bowringLatitude m X Y Z
      in (latitude,
          Math_atan2 Y X,
          Math_sqrt (X * X + Y * Y) / heightDivisor latitude
            - primeVerticalRadius m latitude))"

text \<open>
  The documented frame: \<open>up\<close>, \<open>east\<close> and \<open>north = up \<times> east\<close>, as triples.
\<close>

definition cross3 ::
  "number \<times> number \<times> number \<Rightarrow> number \<times> number \<times> number \<Rightarrow> number \<times> number \<times> number" where
  "cross3 a b =
     (case a of (a0, a1, a2) \<Rightarrow> case b of (b0, b1, b2) \<Rightarrow>
        (a1 * b2 - a2 * b1, a2 * b0 - a0 * b2, a0 * b1 - a1 * b0))"

definition dot3 :: "number \<times> number \<times> number \<Rightarrow> number \<times> number \<times> number \<Rightarrow> number" where
  "dot3 a b =
     (case a of (a0, a1, a2) \<Rightarrow> case b of (b0, b1, b2) \<Rightarrow> a0 * b0 + a1 * b1 + a2 * b2)"

definition frameUp :: "number \<Rightarrow> number \<Rightarrow> number \<times> number \<times> number" where
  "frameUp lat lon =
     (Math_cos lon * Math_cos lat, Math_sin lon * Math_cos lat, Math_sin lat)"

definition frameEast :: "number \<Rightarrow> number \<times> number \<times> number" where
  "frameEast lon = (- Math_sin lon, - Math_cos lon, Fin 0)"

definition frameNorth :: "number \<Rightarrow> number \<Rightarrow> number \<times> number \<times> number" where
  "frameNorth lat lon = cross3 (frameUp lat lon) (frameEast lon)"

text \<open>Reading a row of a matrix, and a vector, out of the store.\<close>

definition matrixRow :: "nat \<Rightarrow> nat \<Rightarrow> world \<Rightarrow> number \<times> number \<times> number" where
  "matrixRow a row w =
     (array_get a (row * 4) w, array_get a (row * 4 + 1) w, array_get a (row * 4 + 2) w)"

definition vector3 :: "nat \<Rightarrow> world \<Rightarrow> number \<times> number \<times> number" where
  "vector3 a w = (array_get a 0 w, array_get a 1 w, array_get a 2 w)"

text \<open>
  The scratch vector \<open>east\<close> is private to \<open>computeCoordinateFrame\<close>, which writes
  its first two components only: the third is the zero that \<open>Vec3.create\<close> put there.
\<close>

definition scratch_ok :: "world \<Rightarrow> bool" where
  "scratch_ok w = (load (east w) 2 = Fin 0)"


text \<open>The two deprecation messages, as the source has them.\<close>

definition deprecated_LatLongHeightToXYZ :: string where
  "deprecated_LatLongHeightToXYZ =
     ''deprecated, use this signature convertLatLongHeightToXYZ( latitude, longitude, height, result )''"

definition deprecated_XYZToLatLongHeight :: string where
  "deprecated_XYZToLatLongHeight =
     ''deprecated, use this signature convertXYZToLatLongHeight( X,  Y,  Z , result)''"

text \<open>A reference is allocated when it is below the next free one.\<close>

definition allocated :: "nat \<Rightarrow> world \<Rightarrow> bool" where
  "allocated a w = (a < nextAddr w)"


section \<open>The conversions over the reals\<close>

text \<open>
  On finite inputs, away from the places where a division by zero or a square root of a
  negative number would leave the reals, the two conversions compute with real numbers
  only. The definitions below are the same expressions as
  \<open>convertLatLongHeightToXYZ\<close> and \<open>convertXYZToLatLongHeight\<close>, for an ellipsoid of
  radii \<open>a\<close> (equator) and \<open>b\<close> (polar), written over \<open>real\<close>; they are used to bound the
  error of the round trip.

  The coefficient \<open>2f - f\<^sup>2\<close> equals \<open>1 - (b/a)\<^sup>2\<close>.
\<close>

definition eccR :: "real \<Rightarrow> real \<Rightarrow> real" where
  "eccR a b = 1 - (b / a)\<^sup>2"

text \<open>
  The prime-vertical radius \<open>N = a / sqrt (1 - e\<^sup>2 sin\<^sup>2 \<phi>)\<close>, the distance
  \<open>(N + h) cos \<phi>\<close> from the polar axis, and the coordinate \<open>Z\<close>, of the point of
  latitude \<open>\<phi>\<close> and height \<open>h\<close>.
\<close>

definition curvW :: "real \<Rightarrow> real \<Rightarrow> real \<Rightarrow> real" where
  "curvW a b \<phi> = sqrt (1 - eccR a b * (sin \<phi>)\<^sup>2)"

definition primeVerticalR :: "real \<Rightarrow> real \<Rightarrow> real \<Rightarrow> real" where
  "primeVerticalR a b \<phi> = a / curvW a b \<phi>"

definition meridianP :: "real \<Rightarrow> real \<Rightarrow> real \<Rightarrow> real \<Rightarrow> real" where
  "meridianP a b \<phi> h = (primeVerticalR a b \<phi> + h) * cos \<phi>"

definition meridianZ :: "real \<Rightarrow> real \<Rightarrow> real \<Rightarrow> real \<Rightarrow> real" where
  "meridianZ a b \<phi> h = (primeVerticalR a b \<phi> * (1 - eccR a b) + h) * sin \<phi>"

text \<open>
  The single pass of \<open>convertXYZToLatLongHeight\<close> on a point at distance \<open>p\<close> from the
  axis: with \<open>theta = atan2 (Z a, p b)\<close>, the sine and cosine of \<open>theta\<close> are
  \<open>Z a / D\<close> and \<open>p b / D\<close> for \<open>D = sqrt ((p b)\<^sup>2 + (Z a)\<^sup>2)\<close>; the latitude is the
  arc tangent of the quotient of \<open>Z + eDashSquared b sin\<^sup>3 theta\<close> by
  \<open>p - e\<^sup>2 a cos\<^sup>3 theta\<close>, and the height is \<open>p / cos latitude - N\<close>.
\<close>

definition bowringD :: "real \<Rightarrow> real \<Rightarrow> real \<Rightarrow> real \<Rightarrow> real" where
  "bowringD a b p Z = sqrt ((p * b)\<^sup>2 + (Z * a)\<^sup>2)"

definition bowringNum :: "real \<Rightarrow> real \<Rightarrow> real \<Rightarrow> real \<Rightarrow> real" where
  "bowringNum a b p Z = Z + (a * a - b * b) / (b * b) * b * (Z * a / bowringD a b p Z) ^ 3"

definition bowringDen :: "real \<Rightarrow> real \<Rightarrow> real \<Rightarrow> real \<Rightarrow> real" where
  "bowringDen a b p Z = p - eccR a b * a * (p * b / bowringD a b p Z) ^ 3"

definition bowringLatR :: "real \<Rightarrow> real \<Rightarrow> real \<Rightarrow> real \<Rightarrow> real" where
  "bowringLatR a b p Z = arctan (bowringNum a b p Z / bowringDen a b p Z)"

definition bowringHeightR :: "real \<Rightarrow> real \<Rightarrow> real \<Rightarrow> real \<Rightarrow> real" where
  "bowringHeightR a b p Z =
     p / cos (bowringLatR a b p Z) - primeVerticalR a b (bowringLatR a b p Z)"

text \<open>
  The round trip: \<open>convertXYZToLatLongHeight\<close> applied to the three components that
  \<open>convertLatLongHeightToXYZ\<close> returned, and the three numbers it returns.
\<close>

definition roundTrip ::
  "number \<Rightarrow> number \<Rightarrow> number \<Rightarrow> nat option \<Rightarrow> nat option \<Rightarrow> world
     \<Rightarrow> number \<times> number \<times> number" where
  "roundTrip latitude longitude height r1 r2 w =
     (let (xyz, w) = convertLatLongHeightToXYZ latitude longitude height r1 w;
          (lla, w) =
            convertXYZToLatLongHeight
              (array_get xyz 0 w) (array_get xyz 1 w) (array_get xyz 2 w) r2 w
      in vector3 lla w)"

text \<open>A number is within a tolerance of a real when it is finite and that close.\<close>

definition withinTol :: "real \<Rightarrow> number \<Rightarrow> real \<Rightarrow> bool" where
  "withinTol tol x r = (case x of Fin v \<Rightarrow> \<bar>v - r\<bar> \<le> tol | _ \<Rightarrow> False)"


section \<open>Numbers and arrays\<close>

lemma strict_eq_Fin [simp]: "strict_eq x (Fin a) = (x = Fin a)"
  by (auto simp: strict_eq_def)

lemma minus_Fin [simp]: "Fin a - Fin b = Fin (a - b)"
  by (simp add: minus_number_def)

lemma minus_NaN [simp]: "NaN - y = NaN" "x - NaN = NaN"
  by (cases x; simp add: minus_number_def)+

lemma load_store: "load (store xs i v) j = (if j = i then v else load xs j)"
  by (auto simp: load_def store_def nth_append)

lemma length_store: "length (store xs i v) = max (length xs) (Suc i)"
  by (auto simp: store_def)

lemma store_within: "i < length xs \<Longrightarrow> store xs i v = xs[i := v]"
  by (simp add: store_def)

lemma load_within: "i < length xs \<Longrightarrow> load xs i = xs ! i"
  by (simp add: load_def)


lemma times_number_assoc: "(x::number) * y * z = x * (y * z)"
  by (cases x; cases y; cases z)
     (auto simp: zero_less_mult_iff mult_less_0_iff)

lemma array_get_array_set:
  "array_get b j (array_set a i v w) =
     (if b = a \<and> j = i then v else array_get b j w)"
  by (simp add: array_get_def array_set_def load_store)


section \<open>The source computes the documented formulas\<close>

lemma convertLatLongHeightToXYZ_Some:
  "convertLatLongHeightToXYZ lat lon h (Some r) w =
     (case geodeticToCartesian (this w) lat lon h of (X, Y, Z) \<Rightarrow>
        (r, w\<lparr>heap := (heap w)(r := store (store (store (heap w r) 0 X) 1 Y) 2 Z)\<rparr>))"
  by (simp add: convertLatLongHeightToXYZ_def geodeticToCartesian_def primeVerticalRadius_def
      Let_def array_set_def times_number_assoc)

lemma convertLatLongHeightToXYZ_None:
  "convertLatLongHeightToXYZ lat lon h None w =
     (case geodeticToCartesian (this w) lat lon h of (X, Y, Z) \<Rightarrow>
        (nextAddr w,
         w\<lparr>heap := (heap w)(nextAddr w := [X, Y, Z]),
           nextAddr := Suc (nextAddr w),
           warnings := warnings w @ [deprecated_LatLongHeightToXYZ]\<rparr>))"
  by (simp add: convertLatLongHeightToXYZ_def geodeticToCartesian_def primeVerticalRadius_def
      Let_def array_set_def times_number_assoc Vec3_create_def alloc_def Notify_warn_def
      store_def deprecated_LatLongHeightToXYZ_def)

lemma convertXYZToLatLongHeight_Some:
  "convertXYZToLatLongHeight X Y Z (Some r) w =
     (case cartesianToGeodetic (this w) X Y Z of (lat, lon, h) \<Rightarrow>
        (r, w\<lparr>heap := (heap w)(r := store (store (store (heap w r) 0 lat) 1 lon) 2 h)\<rparr>))"
  by (simp add: convertXYZToLatLongHeight_def cartesianToGeodetic_def primeVerticalRadius_def
      bowringLatitude_def heightDivisor_def Let_def array_set_def times_number_assoc)

lemma convertXYZToLatLongHeight_None:
  "convertXYZToLatLongHeight X Y Z None w =
     (case cartesianToGeodetic (this w) X Y Z of (lat, lon, h) \<Rightarrow>
        (nextAddr w,
         w\<lparr>heap := (heap w)(nextAddr w := [lat, lon, h]),
           nextAddr := Suc (nextAddr w),
           warnings := warnings w @ [deprecated_XYZToLatLongHeight]\<rparr>))"
  by (simp add: convertXYZToLatLongHeight_def cartesianToGeodetic_def primeVerticalRadius_def
      bowringLatitude_def heightDivisor_def Let_def array_set_def times_number_assoc
      Vec3_create_def alloc_def Notify_warn_def store_def deprecated_XYZToLatLongHeight_def)

lemma computeCoordinateFrame_frame:
  "this (computeCoordinateFrame lat lon a w) = this w"
  "nextAddr (computeCoordinateFrame lat lon a w) = nextAddr w"
  "warnings (computeCoordinateFrame lat lon a w) = warnings w"
  by (simp_all add: computeCoordinateFrame_def Let_def Matrix_set_def array_set_def)

lemma computeCoordinateFrame_east:
  "load (east (computeCoordinateFrame lat lon a w)) 2 = load (east w) 2"
  by (simp add: computeCoordinateFrame_def Let_def Matrix_set_def array_set_def load_store)

lemma computeCoordinateFrame_other:
  "b \<noteq> a \<Longrightarrow> heap (computeCoordinateFrame lat lon a w) b = heap w b"
  by (simp add: computeCoordinateFrame_def Let_def Matrix_set_def array_set_def)

lemma computeCoordinateFrame_rows:
  "matrixRow a 0 (computeCoordinateFrame lat lon a w)
     = (- Math_sin lon, - Math_cos lon, load (east w) 2)"
  "matrixRow a 1 (computeCoordinateFrame lat lon a w)
     = cross3 (frameUp lat lon) (- Math_sin lon, - Math_cos lon, load (east w) 2)"
  "matrixRow a 2 (computeCoordinateFrame lat lon a w) = frameUp lat lon"
  by (simp_all add: computeCoordinateFrame_def Let_def Matrix_set_def array_set_def
      matrixRow_def array_get_def load_store Vec3_cross_def cross3_def frameUp_def)

lemma computeCoordinateFrame_rest:
  "i \<notin> {0, 1, 2, 4, 5, 6, 8, 9, 10} \<Longrightarrow>
   array_get a i (computeCoordinateFrame lat lon a w) = array_get a i w"
  by (simp add: computeCoordinateFrame_def Let_def Matrix_set_def array_set_def
      array_get_def load_store)

lemma computeCoordinateFrame_length:
  "length (heap w a) = 16 \<Longrightarrow> length (heap (computeCoordinateFrame lat lon a w) a) = 16"
  by (simp add: computeCoordinateFrame_def Let_def Matrix_set_def array_set_def
      length_store)


lemma scratch_ok_initial: "scratch_ok initial_world"
  by (simp add: scratch_ok_def initial_world_def load_def)

lemma vector3_fresh:
  "vector3 a (w\<lparr>heap := (heap w)(a := [x, y, z]), nextAddr := n, warnings := l\<rparr>) = (x, y, z)"
  by (simp add: vector3_def array_get_def load_def)

lemma vector3_stored:
  "vector3 a (w\<lparr>heap := (heap w)(a := store (store (store xs 0 x) (Suc 0) y) 2 z)\<rparr>)
     = (x, y, z)"
  by (simp add: vector3_def array_get_def load_store)

lemma eccentricitySquared_new:
  "eccentricitySquared new_EllipsoidModel
     = Fin (2 * ((6378137 - 6356752.3142) / 6378137)
            - ((6378137 - 6356752.3142) / 6378137) * ((6378137 - 6356752.3142) / 6378137))"
  by (simp add: new_EllipsoidModel_def computeCoefficients_def Let_def
      WGS_84_RADIUS_EQUATOR_def WGS_84_RADIUS_POLAR_def)

lemma radii_new:
  "radiusEquator new_EllipsoidModel = Fin 6378137"
  "radiusPolar new_EllipsoidModel = Fin 6356752.3142"
  by (simp_all add: new_EllipsoidModel_def computeCoefficients_def Let_def
      WGS_84_RADIUS_EQUATOR_def WGS_84_RADIUS_POLAR_def)

lemma geodeticToCartesian_origin:
  "geodeticToCartesian new_EllipsoidModel (Fin 0) (Fin 0) (Fin 0) = (Fin 6378137, Fin 0, Fin 0)"
  by (simp add: geodeticToCartesian_def primeVerticalRadius_def eccentricitySquared_new radii_new)


section \<open>The coefficient and the radii\<close>


text \<open>
  Claim C8. \<open>isWGS84\<close> holds exactly when the two stored radii are the two WGS-84
  constants, with no tolerance; a model as the constructor leaves it has these radii,
  and \<open>isWGS84\<close> holds of it.
\<close>

theorem isWGS84_exact:
  "(isWGS84 m \<longleftrightarrow> radiusEquator m = Fin 6378137 \<and> radiusPolar m = Fin 6356752.3142)
   \<and> radiusEquator new_EllipsoidModel = Fin 6378137
   \<and> radiusPolar new_EllipsoidModel = Fin 6356752.3142
   \<and> isWGS84 new_EllipsoidModel"
  by (simp add: isWGS84_def WGS_84_RADIUS_EQUATOR_def WGS_84_RADIUS_POLAR_def
      new_EllipsoidModel_def computeCoefficients_def Let_def)


section \<open>The conversions leave the model alone\<close>

text \<open>
  Claim C9. None of the six conversion and frame operations changes the model: the
  object \<open>this\<close>, that is its two radii and its coefficient, is the same after the
  call as before, for every argument and every world.
\<close>

theorem conversions_keep_model:
  "this (snd (convertLatLongHeightToXYZ lat lon h res w)) = this w
   \<and> this (snd (convertXYZToLatLongHeight X Y Z res w)) = this w
   \<and> this (snd (computeLocalUpVector X Y Z w)) = this w
   \<and> this (computeCoordinateFrame lat lon a w) = this w
   \<and> this (snd (computeLocalToWorldTransformFromLatLongHeight lat lon h res w)) = this w
   \<and> this (snd (computeLocalToWorldTransformFromXYZ X Y Z w)) = this w"
proof -
  have 1: "this (snd (convertLatLongHeightToXYZ lat lon h res w)) = this w"
    by (cases res)
       (simp_all add: convertLatLongHeightToXYZ_Some convertLatLongHeightToXYZ_None
          split: prod.splits)
  have 2: "this (snd (convertXYZToLatLongHeight X Y Z res w)) = this w" for res
    by (cases res)
       (simp_all add: convertXYZToLatLongHeight_Some convertXYZToLatLongHeight_None
          split: prod.splits)
  have 3: "this (snd (computeLocalUpVector X Y Z w)) = this w"
    using 2 [of None]
    by (auto simp: computeLocalUpVector_def Let_def alloc_def split: prod.splits)
  have 4: "this (computeCoordinateFrame lat lon a w) = this w" for lat lon a w
    by (rule computeCoordinateFrame_frame)
  have 5: "this (snd (computeLocalToWorldTransformFromLatLongHeight lat lon h res w)) = this w"
    by (cases res)
       (simp_all add: computeLocalToWorldTransformFromLatLongHeight_def Let_def 4
          convertLatLongHeightToXYZ_Some Matrix_create_def alloc_def Notify_warn_def
          Matrix_makeTranslate_def Matrix_setRow_def Matrix_set_def array_set_def
          split: prod.splits)
  have 6: "this (snd (computeLocalToWorldTransformFromXYZ X Y Z w)) = this w"
    by (simp add: computeLocalToWorldTransformFromXYZ_def Let_def 4
          convertXYZToLatLongHeight_None Matrix_create_def alloc_def
          Matrix_makeTranslate_def Matrix_setRow_def Matrix_set_def array_set_def
          split: prod.splits)
  from 1 2 3 4 5 6 show ?thesis by simp
qed


section \<open>Geodetic to Cartesian\<close>

text \<open>
  Claim C3. For every latitude, longitude and height, and whether or not a result
  container is passed, the vector that \<open>convertLatLongHeightToXYZ\<close> returns holds
  exactly the documented \<open>(X, Y, Z)\<close>, with
  \<open>N = radiusEquator / sqrt(1 - eccentricitySquared \<cdot> sin\<^sup>2(lat))\<close>; with the WGS-84
  defaults the point \<open>(0, 0, 0)\<close> goes to \<open>(6378137, 0, 0)\<close>.
\<close>

theorem convertLatLongHeightToXYZ_formula:
  "(case convertLatLongHeightToXYZ lat lon h res w of
      (a, w') \<Rightarrow> vector3 a w' = geodeticToCartesian (this w) lat lon h)
   \<and> (case convertLatLongHeightToXYZ (Fin 0) (Fin 0) (Fin 0) res
              (w\<lparr>this := new_EllipsoidModel\<rparr>) of
        (a, w') \<Rightarrow> vector3 a w' = (Fin 6378137, Fin 0, Fin 0))"
proof -
  have g: "(case convertLatLongHeightToXYZ lat lon h res w of
      (a, w') \<Rightarrow> vector3 a w' = geodeticToCartesian (this w) lat lon h)" for lat lon h w
    by (cases res)
       (auto simp: convertLatLongHeightToXYZ_Some convertLatLongHeightToXYZ_None
          vector3_fresh vector3_stored split: prod.splits)
  show ?thesis
    using g [where lat = lat and lon = lon and h = h and w = w]
      g [where lat = "Fin 0" and lon = "Fin 0" and h = "Fin 0"
           and w = "w\<lparr>this := new_EllipsoidModel\<rparr>"]
    by (simp add: geodeticToCartesian_origin)
qed


section \<open>The result container\<close>

text \<open>
  Claim C10. When a result container is passed to \<open>convertLatLongHeightToXYZ\<close> or to
  \<open>convertXYZToLatLongHeight\<close>, the three components are written into it and the
  reference returned is the one passed; no other array changes, nothing is allocated
  and nothing is logged. When it is omitted, the function logs its deprecation warning
  and returns a reference that was not allocated before, to a new vector that holds the
  three components; no array that existed changes.
\<close>

theorem result_container:
  "(case convertLatLongHeightToXYZ lat lon h (Some r) w of
      (a, w') \<Rightarrow>
        a = r \<and> vector3 r w' = geodeticToCartesian (this w) lat lon h
        \<and> heap w' = (heap w)(r := heap w' r)
        \<and> nextAddr w' = nextAddr w \<and> warnings w' = warnings w)
   \<and> (case convertLatLongHeightToXYZ lat lon h None w of
        (a, w') \<Rightarrow>
          a = nextAddr w \<and> \<not> allocated a w \<and> allocated a w'
          \<and> vector3 a w' = geodeticToCartesian (this w) lat lon h
          \<and> heap w' = (heap w)(a := heap w' a) \<and> length (heap w' a) = 3
          \<and> warnings w' = warnings w @ [deprecated_LatLongHeightToXYZ])
   \<and> (case convertXYZToLatLongHeight X Y Z (Some r) w of
        (a, w') \<Rightarrow>
          a = r \<and> vector3 r w' = cartesianToGeodetic (this w) X Y Z
          \<and> heap w' = (heap w)(r := heap w' r)
          \<and> nextAddr w' = nextAddr w \<and> warnings w' = warnings w)
   \<and> (case convertXYZToLatLongHeight X Y Z None w of
        (a, w') \<Rightarrow>
          a = nextAddr w \<and> \<not> allocated a w \<and> allocated a w'
          \<and> vector3 a w' = cartesianToGeodetic (this w) X Y Z
          \<and> heap w' = (heap w)(a := heap w' a) \<and> length (heap w' a) = 3
          \<and> warnings w' = warnings w @ [deprecated_XYZToLatLongHeight])"
  by (auto simp: convertLatLongHeightToXYZ_Some convertLatLongHeightToXYZ_None
      convertXYZToLatLongHeight_Some convertXYZToLatLongHeight_None
      vector3_fresh vector3_stored allocated_def split: prod.splits)



section \<open>The coordinate frame\<close>

lemma matrixRow_3_computeCoordinateFrame:
  "matrixRow a 3 (computeCoordinateFrame lat lon a w) = matrixRow a 3 w"
  by (simp add: matrixRow_def computeCoordinateFrame_rest)

lemma Matrix_create_initial:
  "snd (Matrix_create initial_world)
     = initial_world\<lparr>heap := (heap initial_world)(0 := Matrix_identity), nextAddr := Suc 0\<rparr>"
  by (simp add: Matrix_create_def alloc_def initial_world_def)

lemma east_Matrix_create_initial: "load (east (snd (Matrix_create initial_world))) 2 = Fin 0"
  unfolding Matrix_create_initial by (simp add: initial_world_def load_def)

lemma Matrix_makeTranslate_row3:
  "fst (Matrix_makeTranslate x y z a w) = a"
  "matrixRow a 3 (snd (Matrix_makeTranslate x y z a w)) = (x, y, z)"
  "east (snd (Matrix_makeTranslate x y z a w)) = east w"
  "b \<noteq> a \<Longrightarrow> heap (snd (Matrix_makeTranslate x y z a w)) b = heap w b"
  by (simp_all add: Matrix_makeTranslate_def Matrix_setRow_def Matrix_set_def array_set_def
      matrixRow_def array_get_def load_store)

text \<open>
  Claim C6. On a 4\<times>4 matrix, \<open>computeCoordinateFrame\<close> writes row 0 =
  \<open>east = (-sin(lon), -cos(lon), 0)\<close>, row 1 = \<open>north = up \<times> east\<close> and row 2 =
  \<open>up = (cos(lon)cos(lat), sin(lon)cos(lat), sin(lat))\<close>; every entry other than
  these nine, the fourth row among them, is as it was, the matrix still has sixteen
  entries, and no other array changes.
\<close>

theorem computeCoordinateFrame_writes:
  assumes "scratch_ok w" and "length (heap w a) = 16"
  shows "matrixRow a 0 (computeCoordinateFrame lat lon a w) = frameEast lon
    \<and> matrixRow a 1 (computeCoordinateFrame lat lon a w) = frameNorth lat lon
    \<and> matrixRow a 2 (computeCoordinateFrame lat lon a w) = frameUp lat lon
    \<and> matrixRow a 3 (computeCoordinateFrame lat lon a w) = matrixRow a 3 w
    \<and> (\<forall>i. i \<notin> {0, 1, 2, 4, 5, 6, 8, 9, 10} \<longrightarrow>
          array_get a i (computeCoordinateFrame lat lon a w) = array_get a i w)
    \<and> length (heap (computeCoordinateFrame lat lon a w) a) = 16
    \<and> (\<forall>b. b \<noteq> a \<longrightarrow> heap (computeCoordinateFrame lat lon a w) b = heap w b)"
proof -
  have e: "load (east w) 2 = Fin 0"
    using assms(1) by (simp add: scratch_ok_def)
  note rows = computeCoordinateFrame_rows [of a lat lon w, unfolded e]
  have rest: "\<forall>i. i \<notin> {0, 1, 2, 4, 5, 6, 8, 9, 10} \<longrightarrow>
          array_get a i (computeCoordinateFrame lat lon a w) = array_get a i w"
    using computeCoordinateFrame_rest [of _ a lat lon w] by blast
  have other: "\<forall>b. b \<noteq> a \<longrightarrow> heap (computeCoordinateFrame lat lon a w) b = heap w b"
    using computeCoordinateFrame_other [of _ a lat lon w] by blast
  show ?thesis
    unfolding frameEast_def frameNorth_def
    using rows computeCoordinateFrame_length [OF assms(2), of lat lon]
      matrixRow_3_computeCoordinateFrame [of a lat lon w] rest other
    by blast
qed

theorem computeCoordinateFrame_writes_witness:
  "scratch_ok (snd (Matrix_create initial_world))
   \<and> length (heap (snd (Matrix_create initial_world)) 0) = 16
   \<and> matrixRow 0 0 (computeCoordinateFrame (Fin 0) (Fin 0) 0 (snd (Matrix_create initial_world)))
       = (Fin 0, Fin (- 1), Fin 0)
   \<and> matrixRow 0 3 (computeCoordinateFrame (Fin 0) (Fin 0) 0 (snd (Matrix_create initial_world)))
       = (Fin 0, Fin 0, Fin 0)"
proof -
  have 1: "scratch_ok (snd (Matrix_create initial_world))"
    by (simp add: scratch_ok_def east_Matrix_create_initial)
  have 2: "length (heap (snd (Matrix_create initial_world)) 0) = 16"
    unfolding Matrix_create_initial
    by (simp add: Matrix_identity_def)
  have 3: "matrixRow 0 3 (snd (Matrix_create initial_world)) = (Fin 0, Fin 0, Fin 0)"
    unfolding Matrix_create_initial
    by (simp add: Matrix_identity_def matrixRow_def array_get_def load_def)
  show ?thesis
    using computeCoordinateFrame_writes [OF 1 2, of "Fin 0" "Fin 0"] 1 2 3
    by (simp add: frameEast_def)
qed

text \<open>
  Claim C1, evaluated where it fails. At latitude 0 and longitude \<open>\<pi>/4\<close> the row
  \<open>east\<close> that \<open>computeCoordinateFrame\<close> writes is the opposite of the row \<open>up\<close>:
  their scalar product is \<open>-1\<close>, not 0, and the row \<open>north = up \<times> east\<close> is the zero
  vector, not a unit vector. The second component of \<open>east\<close> is written as
  \<open>-cos(lon)\<close>; the east direction is \<open>(-sin(lon), cos(lon), 0)\<close>.
\<close>

theorem computeCoordinateFrame_not_orthonormal:
  "matrixRow 0 0
     (computeCoordinateFrame (Fin 0) (Fin (pi / 4)) 0 (snd (Matrix_create initial_world)))
     = (Fin (- (sqrt 2 / 2)), Fin (- (sqrt 2 / 2)), Fin 0)
   \<and> matrixRow 0 1
       (computeCoordinateFrame (Fin 0) (Fin (pi / 4)) 0 (snd (Matrix_create initial_world)))
     = (Fin 0, Fin 0, Fin 0)
   \<and> matrixRow 0 2
       (computeCoordinateFrame (Fin 0) (Fin (pi / 4)) 0 (snd (Matrix_create initial_world)))
     = (Fin (sqrt 2 / 2), Fin (sqrt 2 / 2), Fin 0)
   \<and> dot3
       (matrixRow 0 0
         (computeCoordinateFrame (Fin 0) (Fin (pi / 4)) 0 (snd (Matrix_create initial_world))))
       (matrixRow 0 2
         (computeCoordinateFrame (Fin 0) (Fin (pi / 4)) 0 (snd (Matrix_create initial_world))))
     = Fin (- 1)"
  unfolding computeCoordinateFrame_rows east_Matrix_create_initial
  by (simp add: frameUp_def cross3_def dot3_def sin_45 cos_45)


section \<open>The transform from a Cartesian point\<close>

text \<open>
  Claim C7. The matrix that \<open>computeLocalToWorldTransformFromXYZ\<close> returns is a new
  one; its translation row is the input \<open>(X, Y, Z)\<close> as it was passed, whatever numbers
  these are, and its three rotation rows are the frame at the latitude and longitude
  that the Cartesian to geodetic conversion derives from \<open>(X, Y, Z)\<close>.
\<close>

theorem computeLocalToWorldTransformFromXYZ_transform:
  assumes "scratch_ok w"
  shows "case computeLocalToWorldTransformFromXYZ X Y Z w of
      (m, w') \<Rightarrow>
        (case cartesianToGeodetic (this w) X Y Z of
           (lat, lon, h) \<Rightarrow>
             matrixRow m 3 w' = (X, Y, Z)
             \<and> matrixRow m 0 w' = frameEast lon
             \<and> matrixRow m 1 w' = frameNorth lat lon
             \<and> matrixRow m 2 w' = frameUp lat lon
             \<and> \<not> allocated m w)"
proof -
  obtain lat lon h where g: "cartesianToGeodetic (this w) X Y Z = (lat, lon, h)"
    by (cases "cartesianToGeodetic (this w) X Y Z") auto
  define w1 where "w1 = w\<lparr>heap := (heap w)(nextAddr w := [lat, lon, h]),
           nextAddr := Suc (nextAddr w),
           warnings := warnings w @ [deprecated_XYZToLatLongHeight]\<rparr>"
  define w2 where "w2 = snd (Matrix_create w1)"
  define m where "m = Suc (nextAddr w)"
  define w3 where "w3 = snd (Matrix_makeTranslate X Y Z m w2)"
  have c: "Matrix_create w1 = (m, w2)"
    by (simp add: w2_def m_def Matrix_create_def alloc_def w1_def)
  have t: "Matrix_makeTranslate X Y Z m w2 = (m, w3)"
    by (simp add: w3_def Matrix_makeTranslate_def)
  have lla: "heap w3 (nextAddr w) = [lat, lon, h]"
    by (simp add: w3_def Matrix_makeTranslate_row3 m_def w2_def Matrix_create_def alloc_def
        w1_def)
  have e: "load (east w3) 2 = Fin 0"
    using assms
    by (simp add: w3_def Matrix_makeTranslate_row3 w2_def Matrix_create_def alloc_def w1_def
        scratch_ok_def)
  have r: "computeLocalToWorldTransformFromXYZ X Y Z w
             = (m, computeCoordinateFrame lat lon m w3)"
    by (simp add: computeLocalToWorldTransformFromXYZ_def convertXYZToLatLongHeight_None g
        w1_def [symmetric] c t Let_def array_get_def lla load_def)
  have 3: "matrixRow m 3 (computeCoordinateFrame lat lon m w3) = (X, Y, Z)"
    by (simp add: matrixRow_3_computeCoordinateFrame w3_def Matrix_makeTranslate_row3)
  note rows = computeCoordinateFrame_rows [of m lat lon w3, unfolded e]
  show ?thesis
    unfolding r g frameEast_def frameNorth_def
    using rows 3 by (simp add: allocated_def m_def)
qed

theorem computeLocalToWorldTransformFromXYZ_transform_witness:
  "scratch_ok initial_world
   \<and> (case computeLocalToWorldTransformFromXYZ (Fin 1) (Fin 2) (Fin 3) initial_world of
        (m, w') \<Rightarrow> matrixRow m 3 w' = (Fin 1, Fin 2, Fin 3))"
  using computeLocalToWorldTransformFromXYZ_transform
          [OF scratch_ok_initial, of "Fin 1" "Fin 2" "Fin 3"]
    scratch_ok_initial
  by (auto split: prod.splits)



section \<open>The vectors the conversions return\<close>

lemma finite_number_Fin [simp]: "finite_number (Fin a)"
  by (simp add: finite_number_def)



lemma convertXYZToLatLongHeight_result:
  "\<exists>a w'. convertXYZToLatLongHeight X Y Z res w = (a, w')
     \<and> vector3 a w' = cartesianToGeodetic (this w) X Y Z \<and> this w' = this w"
  by (cases res)
     (auto simp: convertXYZToLatLongHeight_Some convertXYZToLatLongHeight_None
        vector3_fresh vector3_stored split: prod.splits)

lemma convertLatLongHeightToXYZ_result:
  "\<exists>a w'. convertLatLongHeightToXYZ lat lon h res w = (a, w')
     \<and> vector3 a w' = geodeticToCartesian (this w) lat lon h \<and> this w' = this w"
  by (cases res)
     (auto simp: convertLatLongHeightToXYZ_Some convertLatLongHeightToXYZ_None
        vector3_fresh vector3_stored split: prod.splits)


section \<open>The round trip\<close>

subsection \<open>The two-argument arc tangent\<close>

lemma arctan_tan_shift_pos:
  assumes "pi / 2 < x" "x \<le> pi"
  shows "arctan (tan x) + pi = x"
proof -
  have "tan x = tan (x - pi)"
    using tan_periodic_pi [of "x - pi"] by simp
  moreover have "arctan (tan (x - pi)) = x - pi"
    using assms by (intro arctan_tan) simp_all
  ultimately show ?thesis by simp
qed

lemma arctan_tan_shift_neg:
  assumes "- pi < x" "x < - (pi / 2)"
  shows "arctan (tan x) - pi = x"
proof -
  have "arctan (tan (x + pi)) = x + pi"
    using assms by (intro arctan_tan) simp_all
  then show ?thesis by simp
qed

lemma atan2r_cases:
  "0 < x \<Longrightarrow> atan2r y x = arctan (y / x)"
  "x < 0 \<Longrightarrow> 0 \<le> y \<Longrightarrow> atan2r y x = arctan (y / x) + pi"
  "x < 0 \<Longrightarrow> y < 0 \<Longrightarrow> atan2r y x = arctan (y / x) - pi"
  "0 < y \<Longrightarrow> atan2r y 0 = pi / 2"
  "y < 0 \<Longrightarrow> atan2r y 0 = - (pi / 2)"
  "atan2r 0 0 = 0"
  by (simp_all add: atan2r_def)

lemma atan2r_polar:
  assumes "0 < r" "- pi < l" "l \<le> pi"
  shows "atan2r (r * sin l) (r * cos l) = l"
proof -
  have q: "r * sin l / (r * cos l) = tan l"
    using assms(1) by (simp add: tan_def)
  consider "- pi < l \<and> l < - (pi / 2)" | "l = - (pi / 2)" | "- (pi / 2) < l \<and> l < pi / 2"
    | "l = pi / 2" | "pi / 2 < l \<and> l \<le> pi"
    using assms by linarith
  then show ?thesis
  proof cases
    case 1
    have "cos l < 0"
      using 1 cos_gt_zero_pi [of "l + pi"] by simp
    moreover have "sin l < 0"
      using 1 sin_gt_zero [of "l + pi"] by simp
    ultimately have "r * cos l < 0" "r * sin l < 0"
      using assms(1) by (simp_all add: mult_less_0_iff)
    then show ?thesis
      unfolding atan2r_cases(3) [OF \<open>r * cos l < 0\<close> \<open>r * sin l < 0\<close>] q
      using arctan_tan_shift_neg [of l] 1 by simp
  next
    case 2
    have sc: "sin l = - 1" "cos l = 0"
      unfolding 2 by simp_all
    show ?thesis
      unfolding sc using atan2r_cases(5) [of "r * - 1"] assms(1) 2 by simp
  next
    case 3
    then have "0 < cos l" by (simp add: cos_gt_zero_pi)
    then have "0 < r * cos l" using assms(1) by simp
    then show ?thesis
      unfolding atan2r_cases(1) [OF \<open>0 < r * cos l\<close>] q
      using 3 by (simp add: arctan_tan)
  next
    case 4
    have sc: "sin l = 1" "cos l = 0"
      unfolding 4 by simp_all
    show ?thesis
      unfolding sc using atan2r_cases(4) [of "r * 1"] assms(1) 4 by simp
  next
    case 5
    have "cos l < 0"
      using 5 cos_gt_zero_pi [of "l - pi"] by simp
    moreover have "0 \<le> sin l"
      using 5 by (intro sin_ge_zero) simp_all
    ultimately have "r * cos l < 0" "0 \<le> r * sin l"
      using assms(1) by (simp_all add: mult_less_0_iff)
    then show ?thesis
      unfolding atan2r_cases(2) [OF \<open>r * cos l < 0\<close> \<open>0 \<le> r * sin l\<close>] q
      using arctan_tan_shift_pos [of l] 5 by simp
  qed
qed

subsection \<open>The conversions on real inputs\<close>

lemma primeVerticalRadius_real:
  assumes "radiusEquator m = Fin a" "eccentricitySquared m = Fin (eccR a b)"
    and "0 < 1 - eccR a b * (sin \<phi>)\<^sup>2"
  shows "primeVerticalRadius m (Fin \<phi>) = Fin (primeVerticalR a b \<phi>)"
proof -
  have "sqrt (1 - eccR a b * (sin \<phi> * sin \<phi>)) \<noteq> 0"
    using assms(3) by (simp add: power2_eq_square)
  then show ?thesis
    using assms(3)
    by (simp add: primeVerticalRadius_def assms(1,2) primeVerticalR_def curvW_def
        power2_eq_square)
qed

lemma geodeticToCartesian_real:
  assumes "radiusEquator m = Fin a" "eccentricitySquared m = Fin (eccR a b)"
    and "0 < 1 - eccR a b * (sin \<phi>)\<^sup>2"
  shows "geodeticToCartesian m (Fin \<phi>) (Fin l) (Fin h)
           = (Fin (meridianP a b \<phi> h * cos l), Fin (meridianP a b \<phi> h * sin l),
              Fin (meridianZ a b \<phi> h))"
  by (simp add: geodeticToCartesian_def Let_def primeVerticalRadius_real [OF assms]
      assms(2) meridianP_def meridianZ_def)

lemma sin_cos_arctan_ratio:
  assumes "0 < x"
  shows "sin (arctan (y / x)) = y / sqrt (x\<^sup>2 + y\<^sup>2)"
    and "cos (arctan (y / x)) = x / sqrt (x\<^sup>2 + y\<^sup>2)"
proof -
  have "1 + (y / x)\<^sup>2 = (x\<^sup>2 + y\<^sup>2) / x\<^sup>2"
    using assms by (simp add: field_simps)
  then have r: "sqrt (1 + (y / x)\<^sup>2) = sqrt (x\<^sup>2 + y\<^sup>2) / x"
    using assms by (simp add: real_sqrt_divide)
  have nz: "sqrt (x\<^sup>2 + y\<^sup>2) \<noteq> 0"
    using assms by (simp add: sum_power2_eq_zero_iff)
  show "sin (arctan (y / x)) = y / sqrt (x\<^sup>2 + y\<^sup>2)"
    unfolding sin_arctan r using assms nz by (simp add: field_simps)
  show "cos (arctan (y / x)) = x / sqrt (x\<^sup>2 + y\<^sup>2)"
    unfolding cos_arctan r using assms nz by (simp add: field_simps)
qed

lemma bowringLatitude_real:
  assumes "radiusEquator m = Fin a" "radiusPolar m = Fin b"
    and "eccentricitySquared m = Fin (eccR a b)"
    and "0 < b" "0 < sqrt (X * X + Y * Y)"
    and "bowringDen a b (sqrt (X * X + Y * Y)) Z \<noteq> 0"
  shows "bowringLatitude m (Fin X) (Fin Y) (Fin Z)
           = Fin (bowringLatR a b (sqrt (X * X + Y * Y)) Z)"
proof -
  define p where "p = sqrt (X * X + Y * Y)"
  have p: "0 < p" using assms(5) by (simp add: p_def)
  have pb: "0 < p * b" using p assms(4) by simp
  have P: "Math_sqrt (Fin X * Fin X + Fin Y * Fin Y) = Fin p"
    by (simp add: p_def)
  have th: "Math_atan2 (Fin Z * Fin a) (Fin p * Fin b) = Fin (arctan (Z * a / (p * b)))"
    using atan2r_cases(1) [OF pb] by simp
  have ed: "(Fin a * Fin a - Fin b * Fin b) / (Fin b * Fin b) = Fin ((a * a - b * b) / (b * b))"
    using assms(4) by simp
  have s: "sin (arctan (Z * a / (p * b))) = Z * a / bowringD a b p Z"
    and c: "cos (arctan (Z * a / (p * b))) = p * b / bowringD a b p Z"
    using sin_cos_arctan_ratio [OF pb, of "Z * a"] by (simp_all add: bowringD_def)
  have num: "Fin Z + Fin ((a * a - b * b) / (b * b)) * Fin b
               * (Math_sin (Fin (arctan (Z * a / (p * b))))
                    * Math_sin (Fin (arctan (Z * a / (p * b))))
                    * Math_sin (Fin (arctan (Z * a / (p * b)))))
             = Fin (bowringNum a b p Z)"
    by (simp add: s bowringNum_def power3_eq_cube)
  have den: "Fin p - Fin (eccR a b) * Fin a
               * (Math_cos (Fin (arctan (Z * a / (p * b))))
                    * Math_cos (Fin (arctan (Z * a / (p * b))))
                    * Math_cos (Fin (arctan (Z * a / (p * b)))))
             = Fin (bowringDen a b p Z)"
    by (simp add: c bowringDen_def power3_eq_cube)
  have d: "bowringDen a b p Z \<noteq> 0"
    using assms(6) by (simp add: p_def)
  show ?thesis
    unfolding bowringLatitude_def Let_def assms(1,2,3) P th ed num den p_def [symmetric]
    using d by (simp add: bowringLatR_def)
qed

lemma cartesianToGeodetic_real:
  assumes "radiusEquator m = Fin a" "radiusPolar m = Fin b"
    and "eccentricitySquared m = Fin (eccR a b)"
    and "0 < b" "0 < sqrt (X * X + Y * Y)"
    and "bowringDen a b (sqrt (X * X + Y * Y)) Z \<noteq> 0"
    and "0 < 1 - eccR a b * (sin (bowringLatR a b (sqrt (X * X + Y * Y)) Z))\<^sup>2"
  shows "cartesianToGeodetic m (Fin X) (Fin Y) (Fin Z)
           = (Fin (bowringLatR a b (sqrt (X * X + Y * Y)) Z),
              Fin (atan2r Y X),
              Fin (bowringHeightR a b (sqrt (X * X + Y * Y)) Z))"
proof -
  define p where "p = sqrt (X * X + Y * Y)"
  have P: "Math_sqrt (Fin X * Fin X + Fin Y * Fin Y) = Fin p"
    by (simp add: p_def)
  note lat = bowringLatitude_real [OF assms(1-6), folded p_def]
  have hd: "heightDivisor (Fin (bowringLatR a b p Z)) = Fin (cos (bowringLatR a b p Z))"
    by (simp add: heightDivisor_def bowringLatR_def)
  have c: "cos (bowringLatR a b p Z) \<noteq> 0"
    by (simp add: bowringLatR_def)
  note N = primeVerticalRadius_real [OF assms(1,3) assms(7), folded p_def]
  show ?thesis
    unfolding cartesianToGeodetic_def Let_def lat P hd N p_def [symmetric]
    using c by (simp add: bowringHeightR_def)
qed

subsection \<open>Small angles\<close>

lemma bowring_g_identity:
  fixes ct st cb sb :: real
  assumes "ct\<^sup>2 + st\<^sup>2 = 1" "cb\<^sup>2 + sb\<^sup>2 = 1"
  shows "cb * st ^ 3 + sb * ct ^ 3 - sb * cb
           = (1 - (ct * cb + st * sb))
               * (st * ct * (1 + 2 * (ct * cb + st * sb))
                  + (st\<^sup>2 - ct\<^sup>2) * (st * cb - ct * sb))"
  using assms by algebra

lemma unit_xy:
  fixes ct st cb sb :: real
  assumes "ct\<^sup>2 + st\<^sup>2 = 1" "cb\<^sup>2 + sb\<^sup>2 = 1"
  shows "(ct * cb + st * sb)\<^sup>2 + (st * cb - ct * sb)\<^sup>2 = 1"
  using assms by algebra

lemma bowring_g_bound:
  fixes ct st cb sb :: real
  assumes u: "ct\<^sup>2 + st\<^sup>2 = 1" and v: "cb\<^sup>2 + sb\<^sup>2 = 1"
    and x: "0 \<le> ct * cb + st * sb"
  shows "\<bar>cb * st ^ 3 + sb * ct ^ 3 - sb * cb\<bar>
           \<le> (3 / 2 + \<bar>st * cb - ct * sb\<bar>) * (st * cb - ct * sb)\<^sup>2"
proof -
  define x where "x = ct * cb + st * sb"
  define y where "y = st * cb - ct * sb"
  define B where "B = st * ct * (1 + 2 * x) + (st\<^sup>2 - ct\<^sup>2) * y"
  have xy: "x\<^sup>2 + y\<^sup>2 = 1"
    unfolding x_def y_def using u v by (rule unit_xy)
  have x0: "0 \<le> x" using x by (simp add: x_def)
  have "x\<^sup>2 \<le> 1" using xy by (metis le_add_same_cancel1 zero_le_power2)
  then have "x\<^sup>2 \<le> 1\<^sup>2" by simp
  then have x1: "x \<le> 1" by (rule power2_le_imp_le) simp
  have "(1 - x) * 1 \<le> (1 - x) * (1 + x)"
    using x0 x1 by (intro mult_left_mono) simp_all
  then have "1 - x \<le> (1 - x) * (1 + x)" by simp
  also have "\<dots> = y\<^sup>2"
    using xy by (simp add: algebra_simps power2_eq_square)
  finally have a: "1 - x \<le> y\<^sup>2" .
  have a0: "0 \<le> 1 - x" using x1 by simp
  have "0 \<le> (\<bar>st\<bar> - \<bar>ct\<bar>)\<^sup>2" by simp
  then have "2 * (\<bar>st\<bar> * \<bar>ct\<bar>) \<le> st\<^sup>2 + ct\<^sup>2"
    by (simp add: power2_diff)
  then have sc: "\<bar>st * ct\<bar> \<le> 1 / 2"
    using u by (simp add: abs_mult)
  have d: "\<bar>st\<^sup>2 - ct\<^sup>2\<bar> \<le> 1"
  proof -
    have "\<bar>st\<^sup>2 - ct\<^sup>2\<bar> \<le> st\<^sup>2 + ct\<^sup>2"
      by (simp add: abs_le_iff)
    then show ?thesis using u by simp
  qed
  have x3: "\<bar>1 + 2 * x\<bar> \<le> 3" using x0 x1 by simp
  have "\<bar>st * ct * (1 + 2 * x)\<bar> \<le> 1 / 2 * 3"
    unfolding abs_mult [of "st * ct"] using sc x3 by (intro mult_mono) simp_all
  moreover have "\<bar>(st\<^sup>2 - ct\<^sup>2) * y\<bar> \<le> 1 * \<bar>y\<bar>"
    unfolding abs_mult using d by (intro mult_right_mono) simp_all
  ultimately have B: "\<bar>B\<bar> \<le> 3 / 2 + \<bar>y\<bar>"
    unfolding B_def by linarith
  have g: "cb * st ^ 3 + sb * ct ^ 3 - sb * cb = (1 - x) * B"
    unfolding x_def y_def B_def using u v by (rule bowring_g_identity)
  have "\<bar>(1 - x) * B\<bar> = (1 - x) * \<bar>B\<bar>"
    using a0 by (simp add: abs_mult)
  also have "\<dots> \<le> y\<^sup>2 * (3 / 2 + \<bar>y\<bar>)"
    using a a0 B by (intro mult_mono) simp_all
  finally show ?thesis
    unfolding g y_def [symmetric] by (simp add: mult.commute)
qed

lemma sin_sq_diff: "(sin (x::real))\<^sup>2 - (sin y)\<^sup>2 = sin (x + y) * sin (x - y)"
  unfolding sin_add sin_diff
  using sin_cos_squared_add [of x] sin_cos_squared_add [of y] by algebra

lemma sin_lower: "0 \<le> (t::real) \<Longrightarrow> t - t ^ 3 / 6 \<le> sin t"
proof -
  assume t: "0 \<le> t"
  have "\<bar>sin t - (\<Sum>m<3. sin_coeff m * t ^ m)\<bar> \<le> inverse (fact 3) * \<bar>t\<bar> ^ 3"
    by (rule Maclaurin_sin_bound)
  moreover have "(\<Sum>m<3. sin_coeff m * t ^ m) = t"
    by (simp add: sin_coeff_def numeral_3_eq_3)
  moreover have "inverse (fact 3) * \<bar>t\<bar> ^ 3 = t ^ 3 / 6"
    using t by (simp add: fact_numeral numeral_3_eq_3)
  ultimately show ?thesis by linarith
qed

lemma small_angle:
  fixes d t eps :: real
  assumes "- (pi / 2) < d" "d < pi / 2" "\<bar>sin d\<bar> \<le> eps" "eps < t - t ^ 3 / 6"
    and "0 \<le> t" "t \<le> 1"
  shows "\<bar>d\<bar> \<le> t"
proof (rule ccontr)
  assume "\<not> \<bar>d\<bar> \<le> t"
  then consider "t < d" | "d < - t" by linarith
  then show False
  proof cases
    case 1
    have "t \<le> pi / 2" using assms(6) pi_ge_two by linarith
    have "sin t < sin d"
      using 1 assms(2,5) by (intro sin_monotone_2pi) simp_all
    then show False using sin_lower [OF assms(5)] assms(3,4) by linarith
  next
    case 2
    have "sin d < sin (- t)"
      using 2 assms(1,5,6) pi_ge_two by (intro sin_monotone_2pi) simp_all
    then show False using sin_lower [OF assms(5)] assms(3,4) by simp
  qed
qed

lemma one_minus_cos_le:
  fixes d :: real
  assumes "0 \<le> cos d"
  shows "0 \<le> 1 - cos d" "1 - cos d \<le> (sin d)\<^sup>2"
proof -
  show "0 \<le> 1 - cos d" by simp
  have "(1 - cos d) * 1 \<le> (1 - cos d) * (1 + cos d)"
    using assms by (intro mult_left_mono) simp_all
  then have "1 - cos d \<le> (1 - cos d) * (1 + cos d)" by simp
  also have "\<dots> = (sin d)\<^sup>2"
    using sin_cos_squared_add [of d] by (simp add: algebra_simps power2_eq_square)
  finally show "1 - cos d \<le> (sin d)\<^sup>2" .
qed

subsection \<open>Bounds on the radii of curvature\<close>

lemma eccR_bounds:
  assumes "0 < b" "b \<le> a"
  shows "0 \<le> eccR a b" "eccR a b < 1" "1 - eccR a b = (b / a)\<^sup>2"
    "eccR a b * (a * a) = a * a - b * b"
proof -
  have a: "0 < a" using assms by simp
  have q: "0 < b / a" "b / a \<le> 1" using assms a by simp_all
  then have "(b / a)\<^sup>2 \<le> 1" by (simp add: power_le_one)
  then show "0 \<le> eccR a b" by (simp add: eccR_def)
  have "0 < (b / a)\<^sup>2" using assms a by simp
  then show "eccR a b < 1" by (simp add: eccR_def)
  show "1 - eccR a b = (b / a)\<^sup>2" by (simp add: eccR_def)
  show "eccR a b * (a * a) = a * a - b * b"
    using a by (simp add: eccR_def field_simps power2_eq_square)
qed

lemma curvW_bounds:
  assumes "0 < b" "b \<le> a"
  shows "0 < 1 - eccR a b * (sin \<phi>)\<^sup>2"
    "(curvW a b \<phi>)\<^sup>2 = 1 - eccR a b * (sin \<phi>)\<^sup>2"
    "b / a \<le> curvW a b \<phi>" "curvW a b \<phi> \<le> 1" "0 < curvW a b \<phi>"
proof -
  have a: "0 < a" using assms by simp
  note e = eccR_bounds [OF assms]
  have s: "(sin \<phi>)\<^sup>2 \<le> 1" by (simp add: power_le_one_iff abs_square_le_1)
  have "eccR a b * (sin \<phi>)\<^sup>2 \<le> eccR a b * 1"
    using e(1) s by (intro mult_left_mono) simp_all
  then have l: "(b / a)\<^sup>2 \<le> 1 - eccR a b * (sin \<phi>)\<^sup>2"
    using e(3) by linarith
  have "0 < (b / a)\<^sup>2" using assms a by simp
  then show p: "0 < 1 - eccR a b * (sin \<phi>)\<^sup>2" using l by linarith
  then show "(curvW a b \<phi>)\<^sup>2 = 1 - eccR a b * (sin \<phi>)\<^sup>2"
    by (simp add: curvW_def)
  have "sqrt ((b / a)\<^sup>2) \<le> curvW a b \<phi>"
    unfolding curvW_def using l by (rule real_sqrt_le_mono)
  then show "b / a \<le> curvW a b \<phi>" using assms a by simp
  have "0 \<le> eccR a b * (sin \<phi>)\<^sup>2" using e(1) by simp
  then have "1 - eccR a b * (sin \<phi>)\<^sup>2 \<le> 1" by simp
  then have "curvW a b \<phi> \<le> sqrt 1"
    unfolding curvW_def by (rule real_sqrt_le_mono)
  then show "curvW a b \<phi> \<le> 1" by simp
  show "0 < curvW a b \<phi>" unfolding curvW_def using p by simp
qed

lemma primeVerticalR_bounds:
  assumes "0 < b" "b \<le> a"
  shows "a \<le> primeVerticalR a b \<phi>" "primeVerticalR a b \<phi> \<le> a * a / b"
    "b * b / a \<le> primeVerticalR a b \<phi> * (1 - eccR a b)"
proof -
  have a: "0 < a" using assms by simp
  note W = curvW_bounds [OF assms, of \<phi>]
  note e = eccR_bounds [OF assms]
  have "a / 1 \<le> a / curvW a b \<phi>"
    using W(4,5) a by (intro divide_left_mono) simp_all
  then show N1: "a \<le> primeVerticalR a b \<phi>" by (simp add: primeVerticalR_def)
  have "a / curvW a b \<phi> \<le> a / (b / a)"
    using W(3,5) a assms(1) by (intro divide_left_mono) simp_all
  then show "primeVerticalR a b \<phi> \<le> a * a / b"
    by (simp add: primeVerticalR_def)
  have "a * (b / a)\<^sup>2 \<le> primeVerticalR a b \<phi> * (b / a)\<^sup>2"
    using N1 by (intro mult_right_mono) simp_all
  moreover have "a * (b / a)\<^sup>2 = b * b / a"
    using a by (simp add: power2_eq_square)
  ultimately show "b * b / a \<le> primeVerticalR a b \<phi> * (1 - eccR a b)"
    unfolding e(3) by simp
qed

subsection \<open>The error of the single pass\<close>

lemma cos_pos_range:
  fixes d :: real
  assumes "- pi < d" "d < pi" "0 < cos d"
  shows "- (pi / 2) < d" "d < pi / 2"
proof -
  show "- (pi / 2) < d"
  proof (rule ccontr)
    assume "\<not> - (pi / 2) < d"
    then have "0 \<le> cos (d + pi)"
      using assms(1) by (intro cos_ge_zero) simp_all
    then show False using assms(3) by simp
  qed
  show "d < pi / 2"
  proof (rule ccontr)
    assume "\<not> d < pi / 2"
    then have "0 \<le> cos (d - pi)"
      using assms(2) by (intro cos_ge_zero) simp_all
    then show False using assms(3) by simp
  qed
qed

lemma abs_sin_cos_half:
  fixes s c :: real
  assumes "s\<^sup>2 + c\<^sup>2 = 1"
  shows "\<bar>s\<bar> * \<bar>c\<bar> \<le> 1 / 2"
proof -
  have "0 \<le> (\<bar>s\<bar> - \<bar>c\<bar>)\<^sup>2" by simp
  then have "2 * (\<bar>s\<bar> * \<bar>c\<bar>) \<le> s\<^sup>2 + c\<^sup>2"
    by (simp add: power2_diff)
  then show ?thesis using assms by simp
qed

lemma bowring_error:
  fixes a b \<phi> h R :: real
  assumes ab: "0 < b" "b \<le> a"
    and phi: "- (pi / 2) < \<phi>" "\<phi> < pi / 2"
    and R: "0 < R" "R \<le> b * b / a + h"
    and k: "eccR a b * a \<le> \<kappa> * R" "0 \<le> \<kappa>" "\<kappa> < 1"
    and H: "\<bar>h\<bar> \<le> H"
    and Y: "H * ((a * a - b * b) / (b * b)) \<le> 2 * Y * R"
    and C: "eccR a b * a * a / b \<le> C"
    and k': "(a * a - b * b) / (b * b) * a \<le> \<kappa>' * R"
    and Nm: "a * a / b + H \<le> Nmax"
    and G: "eccR a b * a / (2 * (b / a) ^ 3) \<le> G"
  shows "0 < meridianP a b \<phi> h"
    and "0 < bowringDen a b (meridianP a b \<phi> h) (meridianZ a b \<phi> h)"
    and "- (pi / 2) < bowringLatR a b (meridianP a b \<phi> h) (meridianZ a b \<phi> h) - \<phi>"
    and "bowringLatR a b (meridianP a b \<phi> h) (meridianZ a b \<phi> h) - \<phi> < pi / 2"
    and "\<bar>sin (bowringLatR a b (meridianP a b \<phi> h) (meridianZ a b \<phi> h) - \<phi>)\<bar>
           \<le> C * (3 / 2 + Y) * Y\<^sup>2 / ((1 - \<kappa>) * R)"
    and "\<bar>bowringHeightR a b (meridianP a b \<phi> h) (meridianZ a b \<phi> h) - h\<bar>
           \<le> Nmax * (C * (3 / 2 + Y) * Y\<^sup>2 / ((1 - \<kappa>) * R))\<^sup>2
              + (1 + \<kappa>') * (C * (3 / 2 + Y)) * (2 * Y\<^sup>2) / (1 - \<kappa>)\<^sup>2
              + G * (C * (3 / 2 + Y) * Y\<^sup>2 / ((1 - \<kappa>) * R))"
    and "\<lbrakk>0 \<le> h; sin \<phi> = cos \<phi>; 0 \<le> el; el \<le> eccR a b; 0 \<le> bl; bl \<le> b / a;
          0 \<le> bl * (R / Nmax) / 2 - Y\<rbrakk>
         \<Longrightarrow> R * (el * a * (1 / 2 * (h * el / (2 * Nmax))\<^sup>2 * (bl * (R / Nmax) / 2 - Y))
               / ((1 + \<kappa>') * Nmax))
           - Nmax * (C * (3 / 2 + Y) * Y\<^sup>2 / ((1 - \<kappa>) * R))\<^sup>2
           - G * (C * (3 / 2 + Y) * Y\<^sup>2 / ((1 - \<kappa>) * R))
         \<le> bowringHeightR a b (meridianP a b \<phi> h) (meridianZ a b \<phi> h) - h"
proof -
  define e where "e = eccR a b"
  define s where "s = sin \<phi>"
  define c where "c = cos \<phi>"
  define W where "W = curvW a b \<phi>"
  define N where "N = primeVerticalR a b \<phi>"
  define M where "M = N * (1 - e) + h"
  define p where "p = meridianP a b \<phi> h"
  define Z where "Z = meridianZ a b \<phi> h"
  define D where "D = bowringD a b p Z"
  define st where "st = Z * a / D"
  define ct where "ct = p * b / D"
  define cb where "cb = c / W"
  define sb where "sb = b / a * s / W"
  have a: "0 < a" using ab by simp
  note eb = eccR_bounds [OF ab, folded e_def]
  note Wb = curvW_bounds [OF ab, of \<phi>, folded e_def W_def s_def]
  note Nb = primeVerticalR_bounds [OF ab, of \<phi>, folded e_def N_def]
  have c: "0 < c" unfolding c_def using phi by (rule cos_gt_zero_pi)
  have sc: "s\<^sup>2 + c\<^sup>2 = 1" by (simp add: s_def c_def)
  have NW: "N = a / W" by (simp add: N_def W_def primeVerticalR_def)
  have N0: "0 < N" using Nb(1) a by linarith
  have M: "R \<le> M" unfolding M_def using Nb(3) R(2) by linarith
  have M0: "0 < M" using M R(1) by linarith
  have "N * (1 - e) \<le> N * 1"
    using N0 eb(1) by (intro mult_left_mono) simp_all
  then have MN: "M \<le> N + h" by (simp add: M_def)
  have Nh: "0 < N + h" using MN M0 by linarith
  have p: "p = (N + h) * c" by (simp add: p_def meridianP_def N_def c_def)
  have Z: "Z = M * s" by (simp add: Z_def meridianZ_def M_def N_def e_def s_def)
  have p0: "0 < p" unfolding p using Nh c by simp
  have "M\<^sup>2 * c\<^sup>2 \<le> (N + h)\<^sup>2 * c\<^sup>2"
    using MN M0 by (intro mult_right_mono power_mono) simp_all
  then have "M\<^sup>2 * c\<^sup>2 + M\<^sup>2 * s\<^sup>2 \<le> p\<^sup>2 + Z\<^sup>2"
    by (simp add: p Z power_mult_distrib)
  moreover have "M\<^sup>2 * c\<^sup>2 + M\<^sup>2 * s\<^sup>2 = M\<^sup>2"
    using sc by (simp add: algebra_simps flip: distrib_left)
  ultimately have pZ: "M\<^sup>2 \<le> p\<^sup>2 + Z\<^sup>2" by simp
  have D2: "D\<^sup>2 = (p * b)\<^sup>2 + (Z * a)\<^sup>2"
    by (simp add: D_def bowringD_def)
  have "b\<^sup>2 * Z\<^sup>2 \<le> a\<^sup>2 * Z\<^sup>2"
    using ab by (intro mult_right_mono power_mono) simp_all
  then have "b\<^sup>2 * (p\<^sup>2 + Z\<^sup>2) \<le> D\<^sup>2"
    by (simp add: D2 power_mult_distrib algebra_simps)
  moreover have "b\<^sup>2 * M\<^sup>2 \<le> b\<^sup>2 * (p\<^sup>2 + Z\<^sup>2)"
    using pZ by (intro mult_left_mono) simp_all
  ultimately have "(b * M)\<^sup>2 \<le> D\<^sup>2" by (simp add: power_mult_distrib)
  moreover have D0': "0 \<le> D" by (simp add: D_def bowringD_def)
  ultimately have DM: "b * M \<le> D" by (rule power2_le_imp_le)
  have D0: "0 < D" using DM ab(1) M0 by (meson less_le_trans mult_pos_pos)
  have "ct\<^sup>2 + st\<^sup>2 = ((p * b)\<^sup>2 + (Z * a)\<^sup>2) / D\<^sup>2"
    by (simp add: ct_def st_def power_divide add_divide_distrib)
  also have "\<dots> = 1"
    unfolding D2 [symmetric] using D0 by simp
  finally have u: "ct\<^sup>2 + st\<^sup>2 = 1" .
  have "c\<^sup>2 + (b / a)\<^sup>2 * s\<^sup>2 = 1 - e * s\<^sup>2"
    using sc eb(3) by algebra
  then have "c\<^sup>2 + (b / a)\<^sup>2 * s\<^sup>2 = W\<^sup>2"
    by (simp add: Wb(2))
  moreover have "cb\<^sup>2 + sb\<^sup>2 = (c\<^sup>2 + (b / a)\<^sup>2 * s\<^sup>2) / W\<^sup>2"
    by (simp add: cb_def sb_def power_divide power_mult_distrib add_divide_distrib)
  ultimately have v: "cb\<^sup>2 + sb\<^sup>2 = 1"
    using Wb(5) by simp
  have ct0: "0 < ct" using p0 ab(1) D0 by (simp add: ct_def)
  have y: "st * cb - ct * sb = h * a * e * s * c / (W * D)"
  proof -
    have k: "a * M - b * b / a * (N + h) = h * a * e"
      using a by (simp add: M_def e_def eccR_def power2_eq_square field_simps)
    have "Z * a * c - p * b * (b / a * s) = (a * M - b * b / a * (N + h)) * (s * c)"
      by (simp add: Z p algebra_simps add_divide_distrib)
    then have "Z * a * c - p * b * (b / a * s) = h * a * e * s * c"
      unfolding k by simp
    then show ?thesis
      using D0 Wb(5) by (simp add: st_def ct_def cb_def sb_def field_simps)
  qed
  have x: "0 \<le> ct * cb + st * sb"
  proof -
    have "0 \<le> ct * cb" using ct0 c Wb(5) by (simp add: cb_def)
    moreover have "st * sb = M * s\<^sup>2 * b / (D * W)"
      using a by (simp add: st_def sb_def Z power2_eq_square)
    then have "0 \<le> st * sb" using M0 ab(1) D0 Wb(5) by simp
    ultimately show ?thesis by simp
  qed
  define num where "num = bowringNum a b p Z"
  define den where "den = bowringDen a b p Z"
  define g where "g = cb * st ^ 3 + sb * ct ^ 3 - sb * cb"
  define lat where "lat = bowringLatR a b p Z"
  define D2 where "D2 = sqrt (den\<^sup>2 + num\<^sup>2)"
  define E where "E = e * a * a / b"
  have E0: "0 \<le> E" unfolding E_def using eb(1) a ab(1) by simp
  have num: "num = Z + E * st ^ 3"
  proof -
    have "(a * a - b * b) / (b * b) * b = e * (a * a) / (b * b) * b"
      by (simp only: eb(4))
    also have "\<dots> = E"
      using ab(1) by (simp add: E_def)
    finally have "(a * a - b * b) / (b * b) * b = E" .
    then show ?thesis
      by (simp add: num_def bowringNum_def st_def D_def)
  qed
  have den: "den = p - e * a * ct ^ 3"
    by (simp add: den_def bowringDen_def ct_def D_def e_def)
  have I1: "num * c - den * s = E * W * g"
  proof -
    have r1: "E * W * cb = E * c"
      using Wb(5) by (simp add: cb_def)
    have r2: "E * W * sb = e * a * s"
      using Wb(5) a ab(1) by (simp add: sb_def E_def)
    have r3: "e * a * s * cb = N * e * s * c"
      by (simp add: cb_def NW)
    have "E * W * g = (E * W * cb) * st ^ 3 + (E * W * sb) * ct ^ 3 - (E * W * sb) * cb"
      by (simp add: g_def algebra_simps)
    also have "\<dots> = E * c * st ^ 3 + e * a * s * ct ^ 3 - N * e * s * c"
      unfolding r1 r2 r3 ..
    also have "\<dots> = num * c - den * s"
      by (simp add: num den Z p M_def algebra_simps)
    finally show ?thesis by simp
  qed
  have ct1: "ct \<le> 1"
  proof -
    have "ct\<^sup>2 \<le> 1\<^sup>2" using u by (metis le_add_same_cancel1 one_power2 zero_le_power2)
    then show ?thesis by (rule power2_le_imp_le) simp
  qed
  have st2: "st\<^sup>2 \<le> 1" using u by (metis le_add_same_cancel2 zero_le_power2)
  have st1: "\<bar>st\<bar> \<le> 1"
    using st2 by (simp add: abs_square_le_1)
  have ct3: "ct ^ 3 \<le> ct"
  proof -
    have "ct * ct\<^sup>2 \<le> ct * 1"
      using ct0 ct1 by (intro mult_left_mono) (simp_all add: power_le_one)
    then show ?thesis by (simp add: power3_eq_cube power2_eq_square)
  qed
  have bR: "b * R \<le> D" 
  proof -
    have "b * R \<le> b * M" using M ab(1) by simp
    then show ?thesis using DM by linarith
  qed
  have ctR: "ct \<le> p / R"
  proof -
    have "p * b / D \<le> p * b / (b * R)"
      using bR p0 ab(1) R(1) D0 by (intro divide_left_mono) simp_all
    then show ?thesis using ab(1) by (simp add: ct_def)
  qed
  have eact: "e * a * ct ^ 3 \<le> \<kappa> * p"
  proof -
    have ea: "0 \<le> e * a" using eb(1) a by simp
    have "e * a * ct ^ 3 \<le> e * a * (p / R)"
      using ct3 ctR ea by (intro mult_left_mono) linarith+
    also have "\<dots> = (e * a) * p / R" by simp
    also have "\<dots> \<le> (\<kappa> * R) * p / R"
      using k(1) p0 R(1) by (intro divide_right_mono mult_right_mono) (simp_all add: e_def)
    also have "\<dots> = \<kappa> * p" using R(1) by simp
    finally show ?thesis .
  qed
  have denl: "(1 - \<kappa>) * p \<le> den"
    unfolding den using eact by (simp add: algebra_simps)
  have den0: "0 < den"
  proof -
    have "0 < (1 - \<kappa>) * p" using k(3) p0 by simp
    then show ?thesis using denl by linarith
  qed
  define \<delta> where "\<delta> = lat - \<phi>"
  define y where "y = st * cb - ct * sb"
  have Zst: "0 \<le> Z * st"
  proof -
    have "Z * st = Z\<^sup>2 * a / D" by (simp add: st_def power2_eq_square)
    then show ?thesis using a D0 by simp
  qed
  have numZ: "Z\<^sup>2 \<le> num\<^sup>2"
  proof -
    define t where "t = E * st ^ 3"
    have zt: "Z * t = E * ((Z * st) * st\<^sup>2)"
      by (simp add: t_def power3_eq_cube power2_eq_square)
    have q: "0 \<le> (Z * st) * st\<^sup>2"
      by (rule mult_nonneg_nonneg [OF Zst]) simp
    have "0 \<le> E * ((Z * st) * st\<^sup>2)"
      by (rule mult_nonneg_nonneg [OF E0 q])
    then have "0 \<le> Z * t" unfolding zt .
    moreover have "num\<^sup>2 = Z\<^sup>2 + 2 * (Z * t) + t\<^sup>2"
      unfolding num t_def [symmetric] by (simp add: power2_sum)
    ultimately show ?thesis by simp
  qed
  have nums: "0 \<le> num * s"
  proof -
    have "st * s = M * s\<^sup>2 * a / D" by (simp add: st_def Z power2_eq_square)
    then have sts: "0 \<le> st * s" using M0 a D0 by simp
    have q: "0 \<le> st\<^sup>2 * (st * s)"
      by (rule mult_nonneg_nonneg [OF _ sts]) simp
    have "0 \<le> E * (st\<^sup>2 * (st * s))" by (rule mult_nonneg_nonneg [OF E0 q])
    moreover have "num * s = M * s\<^sup>2 + E * (st\<^sup>2 * (st * s))"
      by (simp add: num Z algebra_simps power3_eq_cube power2_eq_square)
    moreover have "0 \<le> M * s\<^sup>2" using M0 by simp
    ultimately show ?thesis by linarith
  qed
  have k1: "0 < 1 - \<kappa>" "1 - \<kappa> \<le> 1" using k by simp_all
  have D2l: "(1 - \<kappa>) * M \<le> D2"
  proof -
    have "((1 - \<kappa>) * p)\<^sup>2 \<le> den\<^sup>2"
      using denl k1 p0 by (intro power_mono) simp_all
    then have A: "(1 - \<kappa>)\<^sup>2 * p\<^sup>2 \<le> den\<^sup>2"
      by (simp only: power_mult_distrib)
    have "(1 - \<kappa>)\<^sup>2 * Z\<^sup>2 \<le> 1 * Z\<^sup>2"
      using k1 by (intro mult_right_mono) (simp_all add: power_le_one)
    then have B: "(1 - \<kappa>)\<^sup>2 * Z\<^sup>2 \<le> num\<^sup>2"
      using numZ by linarith
    have "(1 - \<kappa>)\<^sup>2 * (p\<^sup>2 + Z\<^sup>2) = (1 - \<kappa>)\<^sup>2 * p\<^sup>2 + (1 - \<kappa>)\<^sup>2 * Z\<^sup>2"
      by (rule distrib_left)
    then have "(1 - \<kappa>)\<^sup>2 * (p\<^sup>2 + Z\<^sup>2) \<le> den\<^sup>2 + num\<^sup>2"
      using A B by linarith
    moreover have "(1 - \<kappa>)\<^sup>2 * M\<^sup>2 \<le> (1 - \<kappa>)\<^sup>2 * (p\<^sup>2 + Z\<^sup>2)"
      using pZ by (intro mult_left_mono) simp_all
    ultimately have "((1 - \<kappa>) * M)\<^sup>2 \<le> den\<^sup>2 + num\<^sup>2"
      unfolding power_mult_distrib by linarith
    then have "sqrt (((1 - \<kappa>) * M)\<^sup>2) \<le> D2"
      unfolding D2_def by (rule real_sqrt_le_mono)
    then show ?thesis using k1 M0 by simp
  qed
  have D20: "0 < D2"
  proof -
    have "0 < (1 - \<kappa>) * M" using k1 M0 by simp
    then show ?thesis using D2l by linarith
  qed
  have sinlat: "sin lat = num / D2" and coslat: "cos lat = den / D2"
    using sin_cos_arctan_ratio [OF den0, of num]
    by (simp_all add: lat_def bowringLatR_def D2_def num_def den_def)
  have sind: "sin \<delta> = E * W * g / D2"
  proof -
    have "sin \<delta> = (num * c - den * s) / D2"
      by (simp add: \<delta>_def sin_diff sinlat coslat c_def s_def diff_divide_distrib)
    then show ?thesis by (simp add: I1)
  qed
  have cosd: "0 < cos \<delta>"
  proof -
    have "cos \<delta> = (den * c + num * s) / D2"
      by (simp add: \<delta>_def cos_diff sinlat coslat c_def s_def add_divide_distrib)
    moreover have "0 < den * c + num * s"
      using den0 c nums by (simp add: add_pos_nonneg)
    ultimately show ?thesis using D20 by simp
  qed
  have latr: "- (pi / 2) < lat" "lat < pi / 2"
    unfolding lat_def bowringLatR_def by (rule arctan_lbound, rule arctan_ubound)
  have dr: "- (pi / 2) < \<delta>" "\<delta> < pi / 2"
  proof -
    have "- pi < \<delta>" "\<delta> < pi" using latr phi by (simp_all add: \<delta>_def)
    then show "- (pi / 2) < \<delta>" "\<delta> < pi / 2"
      using cosd cos_pos_range by blast+
  qed
  define eD where "eD = (a * a - b * b) / (b * b)"
  define q where "q = \<bar>s\<bar> * c"
  define K where "K = C * (3 / 2 + Y)"
  have eD: "eD = e * a * a / (b * b)"
    unfolding eD_def eb(4) [symmetric] by simp
  have eD0: "0 \<le> eD" unfolding eD using eb(1) a by simp
  have H0: "0 \<le> H" using H by linarith
  have Y': "H * eD \<le> 2 * Y * R" using Y unfolding eD_def .
  have Y0: "0 \<le> Y"
  proof (rule ccontr)
    assume "\<not> 0 \<le> Y"
    then have "Y * R < 0" using R(1) by (simp add: mult_neg_pos)
    moreover have "0 \<le> H * eD" using H0 eD0 by simp
    ultimately show False using Y' by linarith
  qed
  have q0: "0 \<le> q" using c by (simp add: q_def)
  have q1: "q \<le> 1 / 2"
    using abs_sin_cos_half [OF sc] c by (simp add: q_def)
  have WD: "b / a * (b * R) \<le> W * D"
    using Wb(3,5) bR ab(1) a R(1) by (intro mult_mono) simp_all
  have WD0: "0 < b / a * (b * R)" using ab(1) a R(1) by simp
  have yq: "\<bar>y\<bar> \<le> 2 * Y * q"
  proof -
    define r where "r = a * e / (W * D)"
    have r0: "0 \<le> r" unfolding r_def using a eb(1) Wb(5) D0 by simp
    have "h * a * e * s * c / (W * D) = h * r * (s * c)"
      by (simp add: r_def)
    then have "\<bar>y\<bar> = \<bar>h\<bar> * r * q"
      unfolding y_def y using r0 c
      by (simp add: abs_mult q_def abs_of_pos abs_of_nonneg)
    moreover have "r \<le> a * e / (b / a * (b * R))"
      unfolding r_def
    proof (rule divide_left_mono [OF WD])
      show "0 \<le> a * e" using a eb(1) by simp
      have "0 < W * D" using Wb(5) D0 by simp
      then show "0 < W * D * (b / a * (b * R))" using WD0 by (rule mult_pos_pos)
    qed
    moreover have "a * e / (b / a * (b * R)) = eD / R"
      using a by (simp add: eD mult_ac)
    ultimately have yr: "\<bar>y\<bar> = \<bar>h\<bar> * r * q" and rR: "r \<le> eD / R"
      by simp_all
    have "\<bar>h\<bar> * r \<le> H * (eD / R)"
      using H rR r0 H0 by (intro mult_mono) simp_all
    then have "\<bar>h\<bar> * r * q \<le> H * (eD / R) * q"
      using q0 by (rule mult_right_mono)
    moreover have "H * (eD / R) \<le> 2 * Y"
      using Y' R(1) by (simp add: pos_divide_le_eq)
    then have "H * (eD / R) * q \<le> 2 * Y * q"
      using q0 by (rule mult_right_mono)
    ultimately show ?thesis unfolding yr by linarith
  qed
  have yY: "\<bar>y\<bar> \<le> Y"
  proof -
    have "2 * Y * q \<le> 2 * Y * (1 / 2)"
      using q1 Y0 by (intro mult_left_mono) simp_all
    then show ?thesis using yq by simp
  qed
  have y2: "y\<^sup>2 \<le> (2 * Y * q)\<^sup>2"
    using yq by (metis abs_ge_zero power2_abs power_mono)
  have K0: "0 \<le> K"
  proof -
    have "0 \<le> C" using E0 C by (simp add: E_def e_def)
    then show ?thesis unfolding K_def using Y0 by (intro mult_nonneg_nonneg) simp_all
  qed
  have gb: "\<bar>g\<bar> \<le> (3 / 2 + Y) * (2 * Y * q)\<^sup>2"
  proof -
    have "\<bar>g\<bar> \<le> (3 / 2 + \<bar>y\<bar>) * y\<^sup>2"
      unfolding g_def y_def using u v x by (rule bowring_g_bound)
    also have "\<dots> \<le> (3 / 2 + Y) * (2 * Y * q)\<^sup>2"
      using yY y2 by (intro mult_mono) simp_all
    finally show ?thesis .
  qed
  have EW: "0 \<le> E * W" "E * W \<le> C"
  proof -
    show "0 \<le> E * W" using E0 Wb(5) by simp
    have "E * W \<le> E * 1" using E0 Wb(4) by (intro mult_left_mono) simp_all
    then show "E * W \<le> C" using C by (simp add: E_def e_def)
  qed
  have C0: "0 \<le> C" using E0 C by (simp add: E_def e_def)
  have kM0: "0 < (1 - \<kappa>) * M" using k1(1) M0 by (rule mult_pos_pos)
  have sinq: "\<bar>sin \<delta>\<bar> \<le> K * (2 * Y * q)\<^sup>2 / ((1 - \<kappa>) * M)"
  proof -
    define G1 where "G1 = (3 / 2 + Y) * (2 * Y * q)\<^sup>2"
    have G10: "0 \<le> G1" unfolding G1_def using Y0 by simp
    have gb': "\<bar>g\<bar> \<le> G1" using gb by (simp add: G1_def)
    have s1: "E * W * \<bar>g\<bar> \<le> C * G1"
      by (rule mult_mono [OF EW(2) gb' C0]) simp
    have CG: "0 \<le> C * G1" using C0 G10 by (rule mult_nonneg_nonneg)
    have "\<bar>sin \<delta>\<bar> = E * W * \<bar>g\<bar> / D2"
      unfolding sind
      by (simp add: abs_mult abs_of_nonneg [OF E0] abs_of_pos [OF Wb(5)] abs_of_pos [OF D20])
    also have "\<dots> \<le> C * G1 / D2"
      using s1 D20 by (intro divide_right_mono) simp_all
    also have "\<dots> \<le> C * G1 / ((1 - \<kappa>) * M)"
    proof (rule divide_left_mono [OF D2l CG])
      show "0 < D2 * ((1 - \<kappa>) * M)" using D20 kM0 by (rule mult_pos_pos)
    qed
    finally show ?thesis by (simp add: K_def G1_def mult.assoc)
  qed
  have sinE: "\<bar>sin \<delta>\<bar> \<le> K * Y\<^sup>2 / ((1 - \<kappa>) * R)"
  proof -
    have "2 * Y * q \<le> 2 * Y * (1 / 2)"
      using q1 Y0 by (intro mult_left_mono) simp_all
    then have "(2 * Y * q)\<^sup>2 \<le> Y\<^sup>2"
      using Y0 q0 by (intro power_mono) simp_all
    then have "K * (2 * Y * q)\<^sup>2 \<le> K * Y\<^sup>2"
      using K0 by (intro mult_left_mono) simp_all
    then have "K * (2 * Y * q)\<^sup>2 / ((1 - \<kappa>) * M) \<le> K * Y\<^sup>2 / ((1 - \<kappa>) * M)"
      using k1(1) M0 by (intro divide_right_mono) simp_all
    also have "\<dots> \<le> K * Y\<^sup>2 / ((1 - \<kappa>) * R)"
      using k1(1) M R(1) K0 by (intro divide_left_mono mult_pos_pos) simp_all
    finally show ?thesis using sinq by linarith
  qed
  define E1 where "E1 = K * Y\<^sup>2 / ((1 - \<kappa>) * R)"
  define hR where "hR = bowringHeightR a b p Z"
  define N' where "N' = primeVerticalR a b lat"
  define W' where "W' = curvW a b lat"
  note sinE' = sinE [folded E1_def]
  have E10: "0 \<le> E1" using sinE' by linarith
  have coslat0: "0 < cos lat" unfolding coslat using den0 D20 by simp
  have tanlat: "sin lat / cos lat = num / den"
    unfolding sinlat coslat using D20 by simp
  have cphi: "c = cos lat * cos \<delta> + sin lat * sin \<delta>"
  proof -
    have "\<phi> = lat - \<delta>" by (simp add: \<delta>_def)
    then have "cos \<phi> = cos (lat - \<delta>)" by simp
    then show ?thesis unfolding c_def cos_diff .
  qed
  have pc: "p / cos lat = (N + h) * (cos \<delta> + num / den * sin \<delta>)"
  proof -
    have "c / cos lat = cos \<delta> + sin lat / cos lat * sin \<delta>"
      unfolding cphi [unfolded c_def, folded c_def] using coslat0
      by (simp add: add_divide_distrib)
    then have e: "c / cos lat = cos \<delta> + num / den * sin \<delta>"
      unfolding tanlat .
    have "p / cos lat = (N + h) * (c / cos lat)" by (simp add: p)
    then show ?thesis unfolding e .
  qed
  have dec: "hR - h = (N + h) * (num / den) * sin \<delta> - (N + h) * (1 - cos \<delta>) + (N - N')"
    unfolding hR_def bowringHeightR_def lat_def [symmetric] N'_def [symmetric] pc
    by (simp add: algebra_simps)
  have NhN: "N + h \<le> Nmax"
  proof -
    have "h \<le> H" using H by linarith
    then show ?thesis using Nb(2) Nm by linarith
  qed
  have sin2: "(sin \<delta>)\<^sup>2 \<le> E1\<^sup>2"
    using sinE' by (metis abs_ge_zero power2_abs power_mono)
  have T1: "0 \<le> (N + h) * (1 - cos \<delta>)" "(N + h) * (1 - cos \<delta>) \<le> Nmax * E1\<^sup>2"
  proof -
    have c0: "0 \<le> cos \<delta>" using cosd by simp
    note oc = one_minus_cos_le [OF c0]
    show "0 \<le> (N + h) * (1 - cos \<delta>)"
      using Nh oc(1) by (intro mult_nonneg_nonneg) simp_all
    have "1 - cos \<delta> \<le> E1\<^sup>2" using oc(2) sin2 by linarith
    then show "(N + h) * (1 - cos \<delta>) \<le> Nmax * E1\<^sup>2"
      using NhN Nh oc(1) by (intro mult_mono) simp_all
  qed
  have k'0: "0 \<le> \<kappa>'"
  proof (rule ccontr)
    assume "\<not> 0 \<le> \<kappa>'"
    then have "\<kappa>' * R < 0" using R(1) by (simp add: mult_neg_pos)
    moreover have "0 \<le> eD * a" using eD0 a by simp
    ultimately show False using k' by (simp add: eD_def)
  qed
  have numb: "\<bar>num\<bar> \<le> (1 + \<kappa>') * (M * \<bar>s\<bar>)"
  proof -
    define r where "r = E * a / D"
    have r0: "0 \<le> r" unfolding r_def using E0 a D0 by simp
    have "\<bar>st\<bar> * \<bar>st\<bar>\<^sup>2 \<le> \<bar>st\<bar> * 1"
      using st2 by (intro mult_left_mono) simp_all
    then have st3: "\<bar>st\<bar> ^ 3 \<le> \<bar>st\<bar>"
      by (simp add: power3_eq_cube power2_eq_square)
    have Zabs: "\<bar>Z\<bar> = M * \<bar>s\<bar>"
      unfolding Z using M0 by (simp add: abs_mult)
    have stabs: "\<bar>st\<bar> = \<bar>Z\<bar> * a / D"
      unfolding st_def using a D0 by (simp add: abs_mult)
    have "\<bar>num\<bar> \<le> \<bar>Z\<bar> + \<bar>E * st ^ 3\<bar>"
      unfolding num by (rule abs_triangle_ineq)
    also have "\<bar>E * st ^ 3\<bar> = E * \<bar>st\<bar> ^ 3"
      using E0 by (simp add: abs_mult power_abs)
    also have "\<bar>Z\<bar> + E * \<bar>st\<bar> ^ 3 \<le> \<bar>Z\<bar> + E * \<bar>st\<bar>"
      using st3 E0 by (simp add: mult_left_mono)
    also have "E * \<bar>st\<bar> = \<bar>Z\<bar> * r"
      unfolding stabs r_def by simp
    finally have n1: "\<bar>num\<bar> \<le> \<bar>Z\<bar> + \<bar>Z\<bar> * r" .
    have "r \<le> E * a / (b * M)"
      unfolding r_def
    proof (rule divide_left_mono [OF DM])
      show "0 \<le> E * a" using E0 a by simp
      have "0 < b * M" using ab(1) M0 by simp
      then show "0 < D * (b * M)" using D0 by simp
    qed
    also have "E * a / (b * M) = eD * a / M"
      by (simp add: E_def eD mult_ac)
    also have "\<dots> \<le> \<kappa>' * R / M"
      using k' M0 by (intro divide_right_mono) (simp_all add: eD_def)
    also have "\<dots> \<le> \<kappa>' * M / M"
      using M M0 k'0 by (intro divide_right_mono mult_left_mono) simp_all
    also have "\<dots> = \<kappa>'" using M0 by simp
    finally have "r \<le> \<kappa>'" .
    then have "\<bar>Z\<bar> * r \<le> \<bar>Z\<bar> * \<kappa>'"
      by (intro mult_left_mono) simp_all
    then have "\<bar>num\<bar> \<le> (1 + \<kappa>') * \<bar>Z\<bar>"
      using n1 by (simp add: algebra_simps)
    then show ?thesis unfolding Zabs .
  qed
  have A1: "(N + h) / den \<le> 1 / ((1 - \<kappa>) * c)"
  proof -
    have kp: "0 < (1 - \<kappa>) * p" using k1(1) p0 by (rule mult_pos_pos)
    have "(N + h) / den \<le> (N + h) / ((1 - \<kappa>) * p)"
    proof (rule divide_left_mono [OF denl])
      show "0 \<le> N + h" using Nh by simp
      show "0 < den * ((1 - \<kappa>) * p)" using den0 kp by (rule mult_pos_pos)
    qed
    also have "\<dots> = 1 / ((1 - \<kappa>) * c)"
      unfolding p using Nh by simp
    finally show ?thesis .
  qed
  have T2: "\<bar>(N + h) * (num / den) * sin \<delta>\<bar> \<le> (1 + \<kappa>') * K * (2 * Y\<^sup>2) / (1 - \<kappa>)\<^sup>2"
  proof -
    define sa where "sa = \<bar>s\<bar>"
    have sa: "0 \<le> sa" "sa\<^sup>2 \<le> 1" "q = sa * c"
      using sc by (simp_all add: sa_def q_def) (metis le_add_same_cancel1 zero_le_power2)
    define B1 where "B1 = 1 / ((1 - \<kappa>) * c)"
    define B2 where "B2 = (1 + \<kappa>') * (M * sa)"
    define B3 where "B3 = K * (2 * Y * q)\<^sup>2 / ((1 - \<kappa>) * M)"
    have B0: "0 \<le> B1" "0 \<le> B2" "0 \<le> B3"
      using k1(1) c k'0 M0 sa(1) K0 by (simp_all add: B1_def B2_def B3_def)
    have a1: "0 \<le> (N + h) / den" using Nh den0 by simp
    have "\<bar>(N + h) * (num / den) * sin \<delta>\<bar> = (N + h) / den * \<bar>num\<bar> * \<bar>sin \<delta>\<bar>"
      using Nh den0 by (simp add: abs_mult)
    also have "\<dots> \<le> B1 * B2 * B3"
    proof (intro mult_mono)
      show "(N + h) / den \<le> B1" unfolding B1_def by (rule A1)
      show "\<bar>num\<bar> \<le> B2" unfolding B2_def sa_def by (rule numb)
      show "\<bar>sin \<delta>\<bar> \<le> B3" unfolding B3_def by (rule sinq)
      show "0 \<le> B1" "0 \<le> B1 * B2" using B0 by simp_all
    qed simp_all
    also have "B1 * B2 * B3 = (1 + \<kappa>') * K * (4 * Y\<^sup>2 * (sa\<^sup>2 * q)) / (1 - \<kappa>)\<^sup>2"
    proof -
      define ko where "ko = 1 - \<kappa>"
      define kp where "kp = 1 + \<kappa>'"
      have ko: "0 < ko" using k1(1) by (simp add: ko_def)
      have "1 / (ko * c) * (kp * (M * sa)) * (K * (2 * Y * (sa * c))\<^sup>2 / (ko * M))
              = kp * K * (4 * Y\<^sup>2 * (sa\<^sup>2 * (sa * c))) / ko\<^sup>2"
        using M0 c ko by (simp add: field_simps power2_eq_square)
      then show ?thesis
        unfolding B1_def B2_def B3_def sa(3) ko_def kp_def .
    qed
    also have "\<dots> \<le> (1 + \<kappa>') * K * (4 * Y\<^sup>2 * (1 * (1 / 2))) / (1 - \<kappa>)\<^sup>2"
      using sa(1,2) q0 q1 k'0 K0
      by (intro divide_right_mono mult_left_mono mult_mono) simp_all
    finally show ?thesis by simp
  qed
  note Wb' = curvW_bounds [OF ab, of lat, folded e_def W'_def]
  have T3: "\<bar>N - N'\<bar> \<le> G * E1"
  proof -
    have N'W: "N' = a / W'" by (simp add: N'_def W'_def primeVerticalR_def)
    have "W'\<^sup>2 - W\<^sup>2 = - (e * ((sin lat)\<^sup>2 - (sin \<phi>)\<^sup>2))"
      unfolding Wb'(2) Wb(2) s_def by (simp add: algebra_simps)
    also have "\<dots> = - (e * (sin (lat + \<phi>) * sin \<delta>))"
      unfolding sin_sq_diff \<delta>_def ..
    finally have dW: "W'\<^sup>2 - W\<^sup>2 = - (e * (sin (lat + \<phi>) * sin \<delta>))" .
    have "\<bar>sin (lat + \<phi>) * sin \<delta>\<bar> \<le> 1 * \<bar>sin \<delta>\<bar>"
      unfolding abs_mult by (intro mult_right_mono) simp_all
    then have "e * \<bar>sin (lat + \<phi>) * sin \<delta>\<bar> \<le> e * \<bar>sin \<delta>\<bar>"
      using eb(1) by (intro mult_left_mono) simp_all
    then have dWb: "\<bar>W'\<^sup>2 - W\<^sup>2\<bar> \<le> e * \<bar>sin \<delta>\<bar>"
      unfolding dW using eb(1) by (simp add: abs_mult)
    define Q where "Q = (W' + W) * (W * W')"
    define ba where "ba = b / a"
    have ba: "0 < ba" using ab(1) a by (simp add: ba_def)
    have "(ba + ba) * (ba * ba) \<le> Q"
      unfolding Q_def using Wb(3) Wb'(3) ba Wb(5) Wb'(5)
      by (intro mult_mono add_mono) (simp_all add: ba_def)
    then have Ql: "2 * ba ^ 3 \<le> Q" by (simp add: power3_eq_cube algebra_simps)
    have Q0: "0 < Q" unfolding Q_def using Wb(5) Wb'(5) by simp
    have b3: "0 < 2 * ba ^ 3" using ba by simp
    have s1: "a / W - a / W' = a * (W' - W) / (W * W')"
      using Wb(5) Wb'(5) by (simp add: field_simps)
    have s2: "(W' - W) * (W' + W) = W'\<^sup>2 - W\<^sup>2"
      by (simp add: algebra_simps power2_eq_square)
    have WW: "0 < W' + W" using Wb(5) Wb'(5) by simp
    have "a * (W' - W) / (W * W') = a * ((W' - W) * (W' + W)) / ((W' + W) * (W * W'))"
      using WW by simp
    then have "N - N' = a * (W'\<^sup>2 - W\<^sup>2) / Q"
      unfolding NW N'W s1 s2 Q_def .
    then have "\<bar>N - N'\<bar> = a * \<bar>W'\<^sup>2 - W\<^sup>2\<bar> / Q"
      using a Q0 by (simp add: abs_mult)
    also have "\<dots> \<le> a * (e * \<bar>sin \<delta>\<bar>) / Q"
      using dWb a Q0 by (intro divide_right_mono mult_left_mono) simp_all
    also have "\<dots> \<le> a * (e * \<bar>sin \<delta>\<bar>) / (2 * ba ^ 3)"
    proof (rule divide_left_mono [OF Ql])
      show "0 \<le> a * (e * \<bar>sin \<delta>\<bar>)" using a eb(1) by simp
      show "0 < Q * (2 * ba ^ 3)" using Q0 b3 by (rule mult_pos_pos)
    qed
    also have "\<dots> = e * a / (2 * ba ^ 3) * \<bar>sin \<delta>\<bar>" by simp
    also have "\<dots> \<le> G * \<bar>sin \<delta>\<bar>"
      using G by (intro mult_right_mono) (simp_all add: e_def ba_def)
    also have "\<dots> \<le> G * E1"
    proof (rule mult_left_mono [OF sinE'])
      have "0 \<le> e * a / (2 * ba ^ 3)" using eb(1) a b3 by simp
      then show "0 \<le> G" using G by (simp add: e_def ba_def)
    qed
    finally show ?thesis .
  qed
  have fin: "\<bar>hR - h\<bar> \<le> Nmax * E1\<^sup>2 + (1 + \<kappa>') * K * (2 * Y\<^sup>2) / (1 - \<kappa>)\<^sup>2 + G * E1"
    unfolding dec using T1 T2 T3 by linarith
  show "0 < meridianP a b \<phi> h" using p0 by (simp add: p_def)
  show "0 < bowringDen a b (meridianP a b \<phi> h) (meridianZ a b \<phi> h)"
    using den0 by (simp add: den_def p_def Z_def)
  show "- (pi / 2) < bowringLatR a b (meridianP a b \<phi> h) (meridianZ a b \<phi> h) - \<phi>"
    using dr(1) by (simp add: \<delta>_def lat_def p_def Z_def)
  show "bowringLatR a b (meridianP a b \<phi> h) (meridianZ a b \<phi> h) - \<phi> < pi / 2"
    using dr(2) by (simp add: \<delta>_def lat_def p_def Z_def)
  show "\<bar>sin (bowringLatR a b (meridianP a b \<phi> h) (meridianZ a b \<phi> h) - \<phi>)\<bar>
           \<le> C * (3 / 2 + Y) * Y\<^sup>2 / ((1 - \<kappa>) * R)"
    using sinE by (simp add: \<delta>_def lat_def p_def Z_def K_def)
  show "\<bar>bowringHeightR a b (meridianP a b \<phi> h) (meridianZ a b \<phi> h) - h\<bar>
           \<le> Nmax * (C * (3 / 2 + Y) * Y\<^sup>2 / ((1 - \<kappa>) * R))\<^sup>2
              + (1 + \<kappa>') * (C * (3 / 2 + Y)) * (2 * Y\<^sup>2) / (1 - \<kappa>)\<^sup>2
              + G * (C * (3 / 2 + Y) * Y\<^sup>2 / ((1 - \<kappa>) * R))"
    using fin unfolding hR_def E1_def K_def p_def Z_def .
  show "R * (el * a * (1 / 2 * (h * el / (2 * Nmax))\<^sup>2 * (bl * (R / Nmax) / 2 - Y))
               / ((1 + \<kappa>') * Nmax))
           - Nmax * (C * (3 / 2 + Y) * Y\<^sup>2 / ((1 - \<kappa>) * R))\<^sup>2
           - G * (C * (3 / 2 + Y) * Y\<^sup>2 / ((1 - \<kappa>) * R))
         \<le> bowringHeightR a b (meridianP a b \<phi> h) (meridianZ a b \<phi> h) - h"
    if h0: "0 \<le> h" and sceq: "sin \<phi> = cos \<phi>" and el: "0 \<le> el" "el \<le> eccR a b"
      and bl: "0 \<le> bl" "bl \<le> b / a" and pos: "0 \<le> bl * (R / Nmax) / 2 - Y"
  proof -
    define gl where "gl = 1 / 2 * (h * el / (2 * Nmax))\<^sup>2 * (bl * (R / Nmax) / 2 - Y)"
    define sl where "sl = el * a * gl / ((1 + \<kappa>') * Nmax)"
    have Nmax0: "0 < Nmax" using NhN Nh by linarith
    have ss: "s = c" using sceq by (simp add: s_def c_def)
    have s0: "0 < s" using c ss by simp
    have "2 * (s * c) = s\<^sup>2 + c\<^sup>2" unfolding ss by (simp add: power2_eq_square)
    then have sch: "s * c = 1 / 2" using sc by simp
    have Z0: "0 \<le> Z" unfolding Z using M0 s0 by simp
    have st0: "0 \<le> st" unfolding st_def using Z0 a D0 by simp
    have pZN: "p\<^sup>2 + Z\<^sup>2 \<le> (N + h)\<^sup>2"
    proof -
      have "M\<^sup>2 * s\<^sup>2 \<le> (N + h)\<^sup>2 * s\<^sup>2"
        using MN M0 by (intro mult_right_mono power_mono) simp_all
      then have "p\<^sup>2 + Z\<^sup>2 \<le> (N + h)\<^sup>2 * c\<^sup>2 + (N + h)\<^sup>2 * s\<^sup>2"
        by (simp add: p Z power_mult_distrib)
      also have "\<dots> = (N + h)\<^sup>2 * (s\<^sup>2 + c\<^sup>2)" by (simp add: algebra_simps)
      finally show ?thesis unfolding sc by simp
    qed
    have Du2: "D\<^sup>2 \<le> (a * (N + h))\<^sup>2"
    proof -
      have "b\<^sup>2 * p\<^sup>2 \<le> a\<^sup>2 * p\<^sup>2"
        using ab by (intro mult_right_mono power_mono) simp_all
      then have "D\<^sup>2 \<le> a\<^sup>2 * (p\<^sup>2 + Z\<^sup>2)"
        by (simp add: D2 power_mult_distrib algebra_simps)
      also have "\<dots> \<le> a\<^sup>2 * (N + h)\<^sup>2"
        using pZN by (intro mult_left_mono) simp_all
      finally show ?thesis by (simp add: power_mult_distrib)
    qed
    have Du: "D \<le> a * Nmax"
    proof -
      have "D \<le> a * (N + h)"
        using Du2 by (rule power2_le_imp_le) (use a Nh in simp)
      also have "\<dots> \<le> a * Nmax" using NhN a by simp
      finally show ?thesis .
    qed
    have yl: "h * el / (2 * Nmax) \<le> y" and y0: "0 \<le> y"
    proof -
      have WDu: "W * D \<le> 1 * (a * Nmax)"
        using Wb(4,5) Du D0 by (intro mult_mono) simp_all
      have hae: "0 \<le> h * a * e / 2" using h0 a eb(1) by simp
      have "h * a * e * s * c = h * a * e * (s * c)" by (simp add: mult.assoc)
      also have "\<dots> = h * a * e * (1 / 2)" by (simp only: sch)
      finally have e1: "h * a * e * s * c = h * a * e / 2" by simp
      have "y = h * a * e / 2 / (W * D)"
        unfolding y_def y e1 ..
      moreover have "h * a * e / 2 / (1 * (a * Nmax)) \<le> h * a * e / 2 / (W * D)"
      proof (rule divide_left_mono [OF WDu hae])
        have wd: "0 < W * D" using Wb(5) D0 by simp
        have an: "0 < 1 * (a * Nmax)" using a Nmax0 by simp
        show "0 < 1 * (a * Nmax) * (W * D)" by (rule mult_pos_pos [OF an wd])
      qed
      moreover have "h * a * e / 2 / (1 * (a * Nmax)) = h * e / (2 * Nmax)"
        using a by simp
      moreover have "h * el / (2 * Nmax) \<le> h * e / (2 * Nmax)"
        using el(2) h0 Nmax0 by (intro divide_right_mono mult_left_mono) (simp_all add: e_def)
      ultimately show "h * el / (2 * Nmax) \<le> y" by linarith
      moreover have "0 \<le> h * el / (2 * Nmax)" using h0 el(1) Nmax0 by simp
      ultimately show "0 \<le> y" by linarith
    qed
    define xx where "xx = ct * cb + st * sb"
    define B where "B = st * ct * (1 + 2 * xx) + (st\<^sup>2 - ct\<^sup>2) * y"
    have xx0: "0 \<le> xx" using x by (simp add: xx_def)
    have xy: "xx\<^sup>2 + y\<^sup>2 = 1"
      unfolding xx_def y_def using u v by (rule unit_xy)
    have "xx\<^sup>2 \<le> 1\<^sup>2" using xy by (metis le_add_same_cancel1 one_power2 zero_le_power2)
    then have xx1: "xx \<le> 1" by (rule power2_le_imp_le) simp
    have omx: "y\<^sup>2 / 2 \<le> 1 - xx"
    proof -
      have "y\<^sup>2 = (1 - xx) * (1 + xx)"
        using xy by (simp add: algebra_simps power2_eq_square)
      also have "\<dots> \<le> (1 - xx) * 2"
        using xx1 by (intro mult_left_mono) simp_all
      finally show ?thesis by simp
    qed
    have gB: "g = (1 - xx) * B"
      unfolding g_def xx_def B_def y_def using u v by (rule bowring_g_identity)
    have stct0: "0 \<le> st * ct" using st0 ct0 by simp
    have stct: "bl * (R / Nmax) / 2 \<le> st * ct"
    proof -
      have aN: "0 < (a * (N + h))\<^sup>2" using a Nh by simp
      have D20': "0 < D\<^sup>2" using D0 by simp
      have num0: "0 \<le> Z * a * (p * b)" using Z0 a p0 ab(1) by simp
      have "st * ct = Z * a * (p * b) / D\<^sup>2"
        by (simp add: st_def ct_def power2_eq_square)
      moreover have "Z * a * (p * b) / (a * (N + h))\<^sup>2 \<le> Z * a * (p * b) / D\<^sup>2"
        by (rule divide_left_mono [OF Du2 num0 mult_pos_pos [OF aN D20']])
      moreover have "Z * a * (p * b) / (a * (N + h))\<^sup>2 = b / a * (M / (N + h)) * (s * c)"
      proof -
        define t where "t = N + h"
        have t: "0 < t" using Nh by (simp add: t_def)
        have "M * s * a * (t * c * b) / (a * t)\<^sup>2 = b / a * (M / t) * (s * c)"
          using a t by (simp add: field_simps power2_eq_square)
        then show ?thesis unfolding Z p t_def .
      qed
      ultimately have l1: "b / a * (M / (N + h)) * (1 / 2) \<le> st * ct"
        unfolding sch by linarith
      have "R / Nmax \<le> M / (N + h)"
        using M NhN Nh R(1) by (intro frac_le) simp_all
      moreover have "0 \<le> R / Nmax" using R(1) Nmax0 by simp
      ultimately have "bl * (R / Nmax) \<le> b / a * (M / (N + h))"
        using bl by (intro mult_mono) simp_all
      then have "bl * (R / Nmax) / 2 \<le> b / a * (M / (N + h)) / 2"
        by (rule divide_right_mono) simp
      also have "\<dots> = b / a * (M / (N + h)) * (1 / 2)" by simp
      finally show ?thesis using l1 by (rule order_trans)
    qed
    have Bl: "bl * (R / Nmax) / 2 - Y \<le> B"
    proof -
      have "st * ct * 1 \<le> st * ct * (1 + 2 * xx)"
        using stct0 xx0 by (intro mult_left_mono) simp_all
      moreover have "\<bar>(st\<^sup>2 - ct\<^sup>2) * y\<bar> \<le> 1 * \<bar>y\<bar>"
      proof -
        have "\<bar>st\<^sup>2 - ct\<^sup>2\<bar> \<le> st\<^sup>2 + ct\<^sup>2" by (simp add: abs_le_iff)
        then have "\<bar>st\<^sup>2 - ct\<^sup>2\<bar> \<le> 1" using u by simp
        then show ?thesis unfolding abs_mult by (intro mult_right_mono) simp_all
      qed
      ultimately show ?thesis unfolding B_def using stct yY by linarith
    qed
    have gl0: "0 \<le> gl" unfolding gl_def using pos by simp
    have glg: "gl \<le> g"
    proof -
      have "0 \<le> h * el / (2 * Nmax)" using h0 el(1) Nmax0 by simp
      then have "(h * el / (2 * Nmax))\<^sup>2 \<le> y\<^sup>2"
        using yl by (intro power_mono) simp_all
      then have "1 / 2 * (h * el / (2 * Nmax))\<^sup>2 \<le> 1 - xx"
        using omx by linarith
      then have "1 / 2 * (h * el / (2 * Nmax))\<^sup>2 * (bl * (R / Nmax) / 2 - Y) \<le> (1 - xx) * B"
        using Bl pos xx1 by (intro mult_mono) simp_all
      then show ?thesis unfolding gl_def gB .
    qed
    have kp0: "0 < 1 + \<kappa>'" using k'0 by simp
    have D2u: "D2 \<le> (1 + \<kappa>') * Nmax"
    proof -
      have "0 \<le> e * a * ct ^ 3" using eb(1) a ct0 by simp
      then have "den \<le> p" unfolding den by simp
      then have d2: "den\<^sup>2 \<le> p\<^sup>2" using den0 by (intro power_mono) simp_all
      have "\<bar>num\<bar>\<^sup>2 \<le> ((1 + \<kappa>') * (M * \<bar>s\<bar>))\<^sup>2"
        using numb by (intro power_mono) simp_all
      then have n2: "num\<^sup>2 \<le> (1 + \<kappa>')\<^sup>2 * Z\<^sup>2"
        by (simp add: Z power_mult_distrib)
      have "1 * p\<^sup>2 \<le> (1 + \<kappa>')\<^sup>2 * p\<^sup>2"
        using k'0 by (intro mult_right_mono) simp_all
      then have "den\<^sup>2 + num\<^sup>2 \<le> (1 + \<kappa>')\<^sup>2 * p\<^sup>2 + (1 + \<kappa>')\<^sup>2 * Z\<^sup>2"
        using d2 n2 by linarith
      also have "\<dots> = (1 + \<kappa>')\<^sup>2 * (p\<^sup>2 + Z\<^sup>2)" by (simp add: distrib_left)
      also have "\<dots> \<le> (1 + \<kappa>')\<^sup>2 * (N + h)\<^sup>2"
        using pZN by (intro mult_left_mono) simp_all
      also have "\<dots> \<le> (1 + \<kappa>')\<^sup>2 * Nmax\<^sup>2"
        using NhN Nh by (intro mult_left_mono power_mono) simp_all
      finally have "den\<^sup>2 + num\<^sup>2 \<le> ((1 + \<kappa>') * Nmax)\<^sup>2"
        by (simp add: power_mult_distrib)
      then have "D2 \<le> sqrt (((1 + \<kappa>') * Nmax)\<^sup>2)"
        unfolding D2_def by (rule real_sqrt_le_mono)
      then show ?thesis using kp0 Nmax0 by simp
    qed
    have sl0: "0 \<le> sl" unfolding sl_def using el(1) a gl0 kp0 Nmax0 by simp
    have sls: "sl \<le> sin \<delta>"
    proof -
      have "E * (b / a) \<le> E * W" using E0 Wb(3) by (rule mult_left_mono [rotated])
      moreover have "E * (b / a) = e * a" using a ab(1) by (simp add: E_def)
      moreover have "el * a \<le> e * a" using el(2) a by (simp add: e_def)
      ultimately have ew: "el * a \<le> E * W" by linarith
      have ela: "0 \<le> el * a" using el(1) a by simp
      have "el * a * gl \<le> E * W * g"
        by (rule mult_mono [OF ew glg _ gl0]) (use EW(1) in simp)
      then have "el * a * gl / D2 \<le> E * W * g / D2"
        using D20 by (intro divide_right_mono) simp_all
      moreover have "el * a * gl / ((1 + \<kappa>') * Nmax) \<le> el * a * gl / D2"
      proof (rule divide_left_mono [OF D2u])
        show "0 \<le> el * a * gl" using ela gl0 by (rule mult_nonneg_nonneg)
        have "0 < (1 + \<kappa>') * Nmax" using kp0 Nmax0 by (rule mult_pos_pos)
        then show "0 < (1 + \<kappa>') * Nmax * D2" using D20 by (rule mult_pos_pos)
      qed
      ultimately show ?thesis unfolding sl_def sind by linarith
    qed
    have T2l: "R * sl \<le> (N + h) * (num / den) * sin \<delta>"
    proof -
      have "0 \<le> E * st ^ 3" using E0 st0 by simp
      then have nZ: "Z \<le> num" unfolding num by simp
      have "0 \<le> e * a * ct ^ 3" using eb(1) a ct0 by simp
      then have dp: "den \<le> p" unfolding den by simp
      have "Z / p \<le> Z / den"
        by (rule divide_left_mono [OF dp Z0 mult_pos_pos [OF p0 den0]])
      moreover have "Z / den \<le> num / den"
        using nZ den0 by (intro divide_right_mono) simp_all
      ultimately have "Z / p \<le> num / den" by linarith
      then have "(N + h) * (Z / p) \<le> (N + h) * (num / den)"
        using Nh by (intro mult_left_mono) simp_all
      moreover have "(N + h) * (Z / p) = M"
        unfolding Z p ss using Nh c by simp
      ultimately have "R \<le> (N + h) * (num / den)" using M by linarith
      then show ?thesis
        using sls sl0 R(1) by (intro mult_mono) simp_all
    qed
    have "R * sl - Nmax * E1\<^sup>2 - G * E1 \<le> hR - h"
      unfolding dec using T2l T1 T3 by linarith
    then show ?thesis
      unfolding sl_def gl_def E1_def K_def hR_def p_def Z_def .
  qed
qed

subsection \<open>The WGS-84 ellipsoid\<close>

lemma wgs_numbers:
  "(6335439::real) \<le> 6356752.3142 * 6356752.3142 / 6378137"
  "eccR 6378137 6356752.3142 * 6378137 \<le> 0.00675 * 6334439"
  "100000 * ((6378137 * 6378137 - 6356752.3142 * 6356752.3142) / (6356752.3142 * 6356752.3142))
     \<le> 2 * 0.0000532 * (6334439::real)"
  "eccR 6378137 6356752.3142 * 6378137 * 6378137 / 6356752.3142 \<le> 42842"
  "(6378137 * 6378137 - 6356752.3142 * 6356752.3142) / (6356752.3142 * 6356752.3142) * 6378137
     \<le> 0.0068 * (6334439::real)"
  "6378137 * 6378137 / 6356752.3142 + 100000 \<le> (6499594::real)"
  "eccR 6378137 6356752.3142 * 6378137 / (2 * (6356752.3142 / 6378137) ^ 3) \<le> 21566"
  by (simp_all add: eccR_def power2_eq_square power3_eq_cube)

lemma wgs_bounds:
  "42842 * (3 / 2 + 0.0000532) * (0.0000532)\<^sup>2 / ((1 - 0.00675) * 6334439)
     < (1 / 10 ^ 9 - (1 / 10 ^ 9) ^ 3 / 6 :: real)"
  "6499594 * (42842 * (3 / 2 + 0.0000532) * (0.0000532)\<^sup>2 / ((1 - 0.00675) * 6334439))\<^sup>2
     + (1 + 0.0068) * (42842 * (3 / 2 + 0.0000532)) * (2 * (0.0000532)\<^sup>2) / (1 - 0.00675)\<^sup>2
     + 21566 * (42842 * (3 / 2 + 0.0000532) * (0.0000532)\<^sup>2 / ((1 - 0.00675) * 6334439))
     \<le> (1 / 10 ^ 3 :: real)"
  by (simp_all add: power2_eq_square power3_eq_cube)

lemma withinTol_Fin [simp]: "withinTol tol (Fin v) r \<longleftrightarrow> \<bar>v - r\<bar> \<le> tol"
  by (simp add: withinTol_def)

lemma roundTrip_eq:
  "roundTrip lat lon h r1 r2 w =
     (case geodeticToCartesian (this w) lat lon h of
        (X, Y, Z) \<Rightarrow> cartesianToGeodetic (this w) X Y Z)"
proof -
  obtain a w1 where r: "convertLatLongHeightToXYZ lat lon h r1 w = (a, w1)"
    and v: "vector3 a w1 = geodeticToCartesian (this w) lat lon h"
    and t: "this w1 = this w"
    using convertLatLongHeightToXYZ_result [of lat lon h r1 w] by blast
  obtain X Y Z where g: "geodeticToCartesian (this w) lat lon h = (X, Y, Z)"
    by (cases "geodeticToCartesian (this w) lat lon h") auto
  have xyz: "array_get a 0 w1 = X" "array_get a 1 w1 = Y" "array_get a 2 w1 = Z"
    using v g by (simp_all add: vector3_def)
  obtain b w2 where r2: "convertXYZToLatLongHeight X Y Z r2 w1 = (b, w2)"
    and v2: "vector3 b w2 = cartesianToGeodetic (this w) X Y Z"
    using convertXYZToLatLongHeight_result [of X Y Z r2 w1] t by auto
  show ?thesis
    unfolding roundTrip_def r prod.case Let_def xyz r2 g v2 ..
qed

lemma new_model_real:
  "radiusEquator new_EllipsoidModel = Fin 6378137"
  "radiusPolar new_EllipsoidModel = Fin 6356752.3142"
  "eccentricitySquared new_EllipsoidModel = Fin (eccR 6378137 6356752.3142)"
  by (simp_all add: radii_new eccentricitySquared_new eccR_def power2_eq_square)

lemma roundTrip_wgs:
  assumes "this w = new_EllipsoidModel"
    and "- (pi / 2) < \<phi>" "\<phi> < pi / 2" "- 1000 \<le> h" "h \<le> 100000"
  shows "roundTrip (Fin \<phi>) (Fin l) (Fin h) r1 r2 w =
     (Fin (bowringLatR 6378137 6356752.3142
             (meridianP 6378137 6356752.3142 \<phi> h) (meridianZ 6378137 6356752.3142 \<phi> h)),
      Fin (atan2r (meridianP 6378137 6356752.3142 \<phi> h * sin l)
             (meridianP 6378137 6356752.3142 \<phi> h * cos l)),
      Fin (bowringHeightR 6378137 6356752.3142
             (meridianP 6378137 6356752.3142 \<phi> h) (meridianZ 6378137 6356752.3142 \<phi> h)))"
proof -
  define a :: real where "a = 6378137"
  define b :: real where "b = 6356752.3142"
  define P where "P = meridianP a b \<phi> h"
  define Z where "Z = meridianZ a b \<phi> h"
  have ab: "0 < b" "b \<le> a" by (simp_all add: a_def b_def)
  note m = new_model_real [folded a_def b_def]
  have R: "(0::real) < 6334439" "6334439 \<le> b * b / a + h"
    using wgs_numbers(1) assms(4) by (simp_all add: a_def b_def)
  have H: "\<bar>h\<bar> \<le> 100000" using assms(4,5) by simp
  note E = bowring_error [OF ab assms(2,3) R _ _ _ H, where \<kappa> = "0.00675" and Y = "0.0000532"
      and C = 42842 and \<kappa>' = "0.0068" and Nmax = 6499594 and G = 21566,
      unfolded a_def b_def, OF wgs_numbers(2) _ _ wgs_numbers(3,4,5,6,7),
      folded a_def b_def, folded P_def Z_def]
  have P0: "0 < P" by (rule E(1)) simp_all
  have den: "bowringDen a b P Z \<noteq> 0" using E(2) by simp
  have fwd: "geodeticToCartesian (this w) (Fin \<phi>) (Fin l) (Fin h)
          = (Fin (P * cos l), Fin (P * sin l), Fin Z)"
    unfolding assms(1) P_def Z_def
    by (rule geodeticToCartesian_real [OF m(1,3) curvW_bounds(1) [OF ab]])
  have "P * cos l * (P * cos l) + P * sin l * (P * sin l)
          = P * P * (cos l * cos l + sin l * sin l)"
    by (simp only: algebra_simps)
  then have "P * cos l * (P * cos l) + P * sin l * (P * sin l) = P * P"
    by (simp only: sin_cos_squared_add3 mult_1_right)
  then have sq: "sqrt (P * cos l * (P * cos l) + P * sin l * (P * sin l)) = P"
    using P0 by simp
  have bwd: "cartesianToGeodetic (this w) (Fin (P * cos l)) (Fin (P * sin l)) (Fin Z)
          = (Fin (bowringLatR a b P Z), Fin (atan2r (P * sin l) (P * cos l)),
             Fin (bowringHeightR a b P Z))"
    unfolding assms(1)
    using cartesianToGeodetic_real [OF m ab(1), of "P * cos l" "P * sin l" Z, unfolded sq,
        OF P0 den curvW_bounds(1) [OF ab]] .
  have "roundTrip (Fin \<phi>) (Fin l) (Fin h) r1 r2 w
          = (Fin (bowringLatR a b P Z), Fin (atan2r (P * sin l) (P * cos l)),
             Fin (bowringHeightR a b P Z))"
    unfolding roundTrip_eq fwd prod.case bwd ..
  then show ?thesis
    unfolding P_def Z_def a_def b_def .
qed

lemma wgs_lower:
  "(0::real) \<le> 0.00669" "0.00669 \<le> eccR 6378137 6356752.3142"
  "(0::real) \<le> 0.9966" "(0.9966::real) \<le> 6356752.3142 / 6378137"
  "(0::real) \<le> 0.9966 * (6334439 / 6499594) / 2 - 0.0000532"
  "(1 / 10 ^ 6 :: real) <
     6334439 * (0.00669 * 6378137 * (1 / 2 * (100000 * 0.00669 / (2 * 6499594))\<^sup>2
        * (0.9966 * (6334439 / 6499594) / 2 - 0.0000532)) / ((1 + 0.0068) * 6499594))
     - 6499594 * (42842 * (3 / 2 + 0.0000532) * (0.0000532)\<^sup>2 / ((1 - 0.00675) * 6334439))\<^sup>2
     - 21566 * (42842 * (3 / 2 + 0.0000532) * (0.0000532)\<^sup>2 / ((1 - 0.00675) * 6334439))"
  by (simp_all add: eccR_def power2_eq_square)

lemma wgs_errors:
  fixes \<phi> h :: real
  assumes "- (pi / 2) < \<phi>" "\<phi> < pi / 2" "- 1000 \<le> h" "h \<le> 100000"
  shows "0 < meridianP 6378137 6356752.3142 \<phi> h"
    and "\<bar>bowringLatR 6378137 6356752.3142
             (meridianP 6378137 6356752.3142 \<phi> h) (meridianZ 6378137 6356752.3142 \<phi> h) - \<phi>\<bar>
           \<le> 1 / 10 ^ 9"
    and "\<bar>bowringHeightR 6378137 6356752.3142
             (meridianP 6378137 6356752.3142 \<phi> h) (meridianZ 6378137 6356752.3142 \<phi> h) - h\<bar>
           \<le> 1 / 10 ^ 3"
    and "\<lbrakk>h = 100000; sin \<phi> = cos \<phi>\<rbrakk> \<Longrightarrow>
          1 / 10 ^ 6 < bowringHeightR 6378137 6356752.3142
             (meridianP 6378137 6356752.3142 \<phi> h) (meridianZ 6378137 6356752.3142 \<phi> h) - h"
proof -
  define a :: real where "a = 6378137"
  define b :: real where "b = 6356752.3142"
  define P where "P = meridianP a b \<phi> h"
  define Z where "Z = meridianZ a b \<phi> h"
  have ab: "0 < b" "b \<le> a" by (simp_all add: a_def b_def)
  have R: "(0::real) < 6334439" "6334439 \<le> b * b / a + h"
    using wgs_numbers(1) assms(3) by (simp_all add: a_def b_def)
  have H: "\<bar>h\<bar> \<le> 100000" using assms(3,4) by simp
  have k: "(0::real) \<le> 0.00675" "(0.00675::real) < 1" by simp_all
  note E = bowring_error [OF ab assms(1,2) R _ k H, where Y = "0.0000532"
      and C = 42842 and \<kappa>' = "0.0068" and Nmax = 6499594 and G = 21566,
      unfolded a_def b_def, OF wgs_numbers(2,3,4,5,6,7),
      folded a_def b_def, folded P_def Z_def]
  show "0 < meridianP 6378137 6356752.3142 \<phi> h"
    using E(1) unfolding P_def a_def b_def .
  have "\<bar>bowringLatR a b P Z - \<phi>\<bar> \<le> 1 / 10 ^ 9"
    by (rule small_angle [OF E(3,4,5) wgs_bounds(1)]) simp_all
  then show "\<bar>bowringLatR 6378137 6356752.3142
             (meridianP 6378137 6356752.3142 \<phi> h) (meridianZ 6378137 6356752.3142 \<phi> h) - \<phi>\<bar>
           \<le> 1 / 10 ^ 9"
    unfolding P_def Z_def a_def b_def .
  have "\<bar>bowringHeightR a b P Z - h\<bar> \<le> 1 / 10 ^ 3"
    by (rule order_trans [OF E(6) wgs_bounds(2)])
  then show "\<bar>bowringHeightR 6378137 6356752.3142
             (meridianP 6378137 6356752.3142 \<phi> h) (meridianZ 6378137 6356752.3142 \<phi> h) - h\<bar>
           \<le> 1 / 10 ^ 3"
    unfolding P_def Z_def a_def b_def .
  show "1 / 10 ^ 6 < bowringHeightR 6378137 6356752.3142
             (meridianP 6378137 6356752.3142 \<phi> h) (meridianZ 6378137 6356752.3142 \<phi> h) - h"
    if hh: "h = 100000" and sc: "sin \<phi> = cos \<phi>"
  proof -
    have h0: "0 \<le> h" using hh by simp
    note L = E(7) [OF h0 sc wgs_lower(1) wgs_lower(2) [folded a_def b_def]
        wgs_lower(3) wgs_lower(4) [folded a_def b_def] wgs_lower(5)]
    have "1 / 10 ^ 6 < bowringHeightR a b P Z - h"
      using wgs_lower(6) L unfolding hh a_def b_def by (rule less_le_trans)
    then show ?thesis unfolding P_def Z_def a_def b_def .
  qed
qed

lemma this_initial_world_new: "this initial_world = new_EllipsoidModel"
  by (simp add: initial_world_def)

text \<open>
  Claim C2, with the longitude in \<open>(-\<pi>, \<pi>]\<close> and a tolerance of one millimetre for
  the height. On the default WGS-84 ellipsoid, for every latitude in \<open>(-89\<degree>, 89\<degree>)\<close>,
  every longitude in \<open>(-\<pi>, \<pi>]\<close> and every height in \<open>[-1000, 100000]\<close> metres,
  \<open>convertXYZToLatLongHeight\<close> applied to the output of \<open>convertLatLongHeightToXYZ\<close>
  returns finite numbers: a latitude and a longitude within \<open>1e-9\<close> radians
  of the original ones and a height within \<open>1e-3\<close> metres of the original
  one, in exact real arithmetic.
\<close>

theorem roundTrip_within_tolerance:
  assumes "this w = new_EllipsoidModel"
    and "- (89 * pi / 180) < lat" "lat < 89 * pi / 180"
    and "- pi < lon" "lon \<le> pi"
    and "- 1000 \<le> h" "h \<le> 100000"
  shows "case roundTrip (Fin lat) (Fin lon) (Fin h) r1 r2 w of
           (lat', lon', h') \<Rightarrow>
             withinTol (1 / 10 ^ 9) lat' lat \<and> withinTol (1 / 10 ^ 9) lon' lon
           \<and> withinTol (1 / 10 ^ 3) h' h"
proof -
  have r: "- (pi / 2) < lat" "lat < pi / 2"
    using assms(2,3) pi_gt_zero by linarith+
  note e = wgs_errors [OF r assms(6,7)]
  have l: "atan2r (meridianP 6378137 6356752.3142 lat h * sin lon)
             (meridianP 6378137 6356752.3142 lat h * cos lon) = lon"
    by (rule atan2r_polar [OF e(1) assms(4,5)])
  show ?thesis
    unfolding roundTrip_wgs [OF assms(1) r assms(6,7)] prod.case withinTol_Fin l
    using e(2,3) by simp
qed

text \<open>The round trip of the point of latitude, longitude and height zero.\<close>

theorem roundTrip_within_tolerance_witness:
  "this initial_world = new_EllipsoidModel
   \<and> - (89 * pi / 180) < (0::real) \<and> (0::real) < 89 * pi / 180
   \<and> - pi < (0::real) \<and> (0::real) \<le> pi \<and> - 1000 \<le> (0::real) \<and> (0::real) \<le> 100000
   \<and> (case roundTrip (Fin 0) (Fin 0) (Fin 0) None None initial_world of
        (lat', lon', h') \<Rightarrow>
          withinTol (1 / 10 ^ 9) lat' 0 \<and> withinTol (1 / 10 ^ 9) lon' 0
        \<and> withinTol (1 / 10 ^ 3) h' 0)"
  using roundTrip_within_tolerance [where w = initial_world and lat = 0 and lon = 0 and h = 0
      and ?r1.0 = None and ?r2.0 = None]
  by (simp add: this_initial_world_new)

text \<open>
  Claim C2 as stated, evaluated where it fails. At latitude \<open>\<pi>/4\<close>, longitude
  \<open>2\<pi>\<close> and height 100000 metres the longitude returned is 0, which is not within
  \<open>1e-9\<close> of \<open>2\<pi>\<close>, and the height returned exceeds the original one by more
  than \<open>1e-6\<close> metres.
\<close>

theorem roundTrip_not_within_tolerance:
  "\<not> withinTol (1 / 10 ^ 9)
       (fst (snd (roundTrip (Fin (pi / 4)) (Fin (2 * pi)) (Fin 100000) None None initial_world)))
       (2 * pi)
   \<and> \<not> withinTol (1 / 10 ^ 6)
       (snd (snd (roundTrip (Fin (pi / 4)) (Fin (2 * pi)) (Fin 100000) None None initial_world)))
       100000"
proof -
  have r: "- (pi / 2) < pi / 4" "pi / 4 < pi / 2" "- 1000 \<le> (100000::real)"
    "(100000::real) \<le> 100000"
    using pi_gt_zero by simp_all
  note e = wgs_errors [OF r]
  have sc: "sin (pi / 4) = cos (pi / 4)" by (simp add: sin_45 cos_45)
  have l: "atan2r (meridianP 6378137 6356752.3142 (pi / 4) 100000 * sin (2 * pi))
             (meridianP 6378137 6356752.3142 (pi / 4) 100000 * cos (2 * pi)) = 0"
    using e(1) by (simp add: atan2r_def)
  have p: "\<not> \<bar>0 - 2 * pi\<bar> \<le> 1 / 10 ^ 9"
    using pi_ge_two by simp
  have "1 / 10 ^ 6 < bowringHeightR 6378137 6356752.3142
          (meridianP 6378137 6356752.3142 (pi / 4) 100000)
          (meridianZ 6378137 6356752.3142 (pi / 4) 100000) - 100000"
    by (rule e(4) [OF refl sc])
  then have q: "\<not> \<bar>bowringHeightR 6378137 6356752.3142
          (meridianP 6378137 6356752.3142 (pi / 4) 100000)
          (meridianZ 6378137 6356752.3142 (pi / 4) 100000) - 100000\<bar> \<le> 1 / 10 ^ 6"
    by linarith
  show ?thesis
    unfolding roundTrip_wgs [OF this_initial_world_new r] snd_conv fst_conv withinTol_Fin l
    using p q by (rule conjI)
qed


section \<open>The height returned by \<open>convertXYZToLatLongHeight\<close>\<close>

text \<open>
  The latitude is the arc tangent of a quotient \<open>n / d\<close>. The numerator \<open>n\<close> has the sign
  of \<open>Z\<close>, so the quotient is \<open>0 / 0\<close> only in the equatorial plane, where \<open>d\<close> is
  \<open>p - eccentricitySquared * radiusEquator\<close>. Everywhere else the latitude is finite, and
  then so is the height, whether the cosine of the latitude is zero (the divisor is then
  one) or not. In exact arithmetic the cosine is zero when \<open>d\<close> is zero, on the polar
  axis for instance; in floating point, where no number is an odd multiple of \<open>\<pi>/2\<close>,
  it is not, and the height is \<open>p\<close> divided by a small cosine. The statements below hold
  on either path.
\<close>

subsection \<open>Where the latitude is finite\<close>








subsection \<open>The round trip from a latitude off the equator\<close>




subsection \<open>The floating-point number nearest to \<open>\<pi>/2\<close>\<close>








subsection \<open>The claim\<close>




end
